theory Spec2Isabelle
  imports Main
begin

section \<open>The Intcode computer of \<^verbatim>\<open>solutions/2019/code/intcode.py\<close>\<close>

text \<open>
  A shallow embedding of the class \<^verbatim>\<open>IntcodeComputer\<close>. Each method of the class is a
  HOL function of the same name that takes the machine and returns the mutated machine
  together with the method's result; a Python exception is the left summand of the result.
\<close>

subsection \<open>Exceptions\<close>

text \<open>
  \<^verbatim>\<open>Instruction\<close> is the dataclass of lines 8-11: a raw operand and its addressing mode.
\<close>

datatype instruction = Instruction (parameter: int) (mode: int)

text \<open>
  The exceptions the module can raise. The constructor names are the ones of the
  specification's taxonomy where it has one; the comment gives the Python exception.
\<close>

datatype error =
    InvalidOpcode int           \<comment> \<open>\<^verbatim>\<open>ValueError\<close>, lines 68 and 154\<close>
  | InvalidMode instruction     \<comment> \<open>\<^verbatim>\<open>ValueError\<close>, line 91\<close>
  | InvalidLiteral string       \<comment> \<open>\<^verbatim>\<open>ValueError\<close> of \<^verbatim>\<open>int()\<close> on a string that is no integer literal\<close>
  | EmptyMax                    \<comment> \<open>\<^verbatim>\<open>ValueError\<close> of \<^verbatim>\<open>max()\<close> on an empty iterable, line 187\<close>
  | InputExhausted              \<comment> \<open>\<^verbatim>\<open>StopIteration\<close> of \<^verbatim>\<open>next()\<close>, line 46\<close>
  | ConsoleClosed               \<comment> \<open>\<^verbatim>\<open>EOFError\<close> of \<^verbatim>\<open>input()\<close>, line 45\<close>
  | InvalidInputArgument        \<comment> \<open>\<^verbatim>\<open>TypeError\<close>, line 56\<close>
  | BadDiagnostic "int list"    \<comment> \<open>\<^verbatim>\<open>RuntimeError\<close>, line 182\<close>
  | IndexError                  \<comment> \<open>\<^verbatim>\<open>IndexError\<close> of a list or string subscript out of range\<close>

text \<open>
  Sequencing of two computations that may raise: the second runs on the value of the
  first, and an exception of the first is the exception of the whole.
\<close>

definition bind_err :: "error + 'a \<Rightarrow> ('a \<Rightarrow> error + 'b) \<Rightarrow> error + 'b" where
  "bind_err r f = (case r of Inl e \<Rightarrow> Inl e | Inr x \<Rightarrow> f x)"

subsection \<open>Python's \<^verbatim>\<open>str\<close>, \<^verbatim>\<open>zfill\<close> and \<^verbatim>\<open>int\<close> on decimal strings\<close>

definition digit_char :: "nat \<Rightarrow> char" where
  "digit_char d = ''0123456789'' ! d"

fun str_nat :: "nat \<Rightarrow> string" where
  "str_nat n = (if n < 10 then [digit_char n] else str_nat (n div 10) @ [digit_char (n mod 10)])"

declare str_nat.simps [simp del]

text \<open>\<^verbatim>\<open>str(i)\<close> for a Python int: the decimal digits, after a minus sign when negative.\<close>

definition str_int :: "int \<Rightarrow> string" where
  "str_int i = (if i < 0 then CHR ''-'' # str_nat (nat (- i)) else str_nat (nat i))"

text \<open>
  \<^verbatim>\<open>s.zfill(width)\<close>: a string at least \<^verbatim>\<open>width\<close> long is returned as it is; otherwise
  zeros are inserted on the left, after a leading sign when there is one.
\<close>

definition zfill :: "nat \<Rightarrow> string \<Rightarrow> string" where
  "zfill width s =
     (if width \<le> length s then s
      else if s \<noteq> [] \<and> (hd s = CHR ''+'' \<or> hd s = CHR ''-'')
        then hd s # replicate (width - length s) CHR ''0'' @ tl s
      else replicate (width - length s) CHR ''0'' @ s)"

definition digit_val :: "char \<Rightarrow> nat option" where
  "digit_val c =
     map_of [(CHR ''0'', 0), (CHR ''1'', 1), (CHR ''2'', 2), (CHR ''3'', 3), (CHR ''4'', 4),
             (CHR ''5'', 5), (CHR ''6'', 6), (CHR ''7'', 7), (CHR ''8'', 8), (CHR ''9'', 9)] c"

text \<open>The value of a string of decimal digits, read left to right from the accumulator.\<close>

fun digits_val :: "nat \<Rightarrow> string \<Rightarrow> nat option" where
  "digits_val acc [] = Some acc"
| "digits_val acc (c # cs) =
     (case digit_val c of None \<Rightarrow> None | Some d \<Rightarrow> digits_val (10 * acc + d) cs)"

text \<open>
  \<^verbatim>\<open>int(s)\<close> on the strings that \<^verbatim>\<open>parse_opcode\<close> builds, which hold only decimal
  digits and a minus sign: an optional sign followed by at least one digit is an integer
  literal, anything else raises \<^verbatim>\<open>ValueError\<close>. (Python also accepts surrounding
  white space and single underscores between digits; neither occurs in these strings.)
\<close>

definition py_int :: "string \<Rightarrow> error + int" where
  "py_int s =
     (if s \<noteq> [] \<and> hd s = CHR ''-'' then
        (if tl s = [] then Inl (InvalidLiteral s)
         else case digits_val 0 (tl s) of
                None \<Rightarrow> Inl (InvalidLiteral s) | Some n \<Rightarrow> Inr (- int n))
      else if s \<noteq> [] \<and> hd s = CHR ''+'' then
        (if tl s = [] then Inl (InvalidLiteral s)
         else case digits_val 0 (tl s) of
                None \<Rightarrow> Inl (InvalidLiteral s) | Some n \<Rightarrow> Inr (int n))
      else if s = [] then Inl (InvalidLiteral s)
      else case digits_val 0 s of
             None \<Rightarrow> Inl (InvalidLiteral s) | Some n \<Rightarrow> Inr (int n))"

text \<open>\<^verbatim>\<open>s[i]\<close> for a non-negative index: the one-character string, or \<^verbatim>\<open>IndexError\<close>.\<close>

definition char_at :: "string \<Rightarrow> nat \<Rightarrow> error + string" where
  "char_at s i = (if i < length s then Inr [s ! i] else Inl IndexError)"

subsection \<open>The instruction decoder\<close>

text \<open>
  \<^verbatim>\<open>parse_opcode\<close>, lines 70-76. The tuple's components are evaluated left to right:
  \<^verbatim>\<open>int(padded[3:])\<close>, \<^verbatim>\<open>int(padded[2])\<close>, \<^verbatim>\<open>int(padded[1])\<close>, \<^verbatim>\<open>int(padded[0])\<close>.
\<close>

definition parse_opcode :: "int \<Rightarrow> error + (int \<times> int \<times> int \<times> int)" where
  "parse_opcode opcode =
     (let padded = zfill 5 (str_int opcode) in
      bind_err (py_int (drop 3 padded)) (\<lambda>op.
      bind_err (char_at padded 2) (\<lambda>c2. bind_err (py_int c2) (\<lambda>m0.
      bind_err (char_at padded 1) (\<lambda>c1. bind_err (py_int c1) (\<lambda>m1.
      bind_err (char_at padded 0) (\<lambda>c0. bind_err (py_int c0) (\<lambda>m2.
      Inr (op, m0, m1, m2)))))))))"

text \<open>
  The decoder as the specification words it: the word as five decimal digits, the last
  two the opcode, and the three digits above them, most significant first, the modes of
  operands 1, 2 and 3.
\<close>

definition decode_spec :: "int \<Rightarrow> int \<times> int \<times> int \<times> int" where
  "decode_spec w = (w mod 100, w div 10000 mod 10, w div 1000 mod 10, w div 100 mod 10)"

subsection \<open>Memory\<close>

text \<open>
  \<^verbatim>\<open>self.program\<close> is a \<^verbatim>\<open>defaultdict(int)\<close>. A Python dict keeps its keys in the
  order of their insertion, so it is an association list with distinct keys. Storing
  under a present key replaces the value in place, storing under a new key appends.
\<close>

type_synonym memory = "(int \<times> int) list"

fun dict_set :: "memory \<Rightarrow> int \<Rightarrow> int \<Rightarrow> memory" where
  "dict_set [] k v = [(k, v)]"
| "dict_set ((k', v') # d) k v =
     (if k' = k then (k, v) # d else (k', v') # dict_set d k v)"

text \<open>
  \<^verbatim>\<open>d[k]\<close> on the defaultdict never raises: a missing key is first stored with the
  default \<^verbatim>\<open>int() = 0\<close>, so a read may grow the dict.
\<close>

definition dict_get :: "memory \<Rightarrow> int \<Rightarrow> int \<times> memory" where
  "dict_get d k = (case map_of d k of Some v \<Rightarrow> (v, d) | None \<Rightarrow> (0, dict_set d k 0))"

text \<open>What address \<open>a\<close> reads as, without the side effect of reading.\<close>

definition peek :: "memory \<Rightarrow> int \<Rightarrow> int" where
  "peek d a = fst (dict_get d a)"

subsection \<open>The machine\<close>

text \<open>
  The attributes of an \<^verbatim>\<open>IntcodeComputer\<close>. \<^verbatim>\<open>inputs\<close> is a list iterator: it is
  modelled by the items it has not yet yielded. \<^verbatim>\<open>valid_opcodes\<close> is assigned once in
  \<^verbatim>\<open>__init__\<close> and never changed; it is the constant below.
\<close>

record machine =
  program :: memory
  "output" :: "int list"
  pointer :: int
  interactive :: bool
  inputs :: "int list"
  relative_base :: int
  debug :: bool

definition valid_opcodes :: "int list" where
  "valid_opcodes = [1, 2, 3, 4, 5, 6, 7, 8, 9, 99]"

text \<open>
  The console behind \<^verbatim>\<open>input("--> ")\<close> is outside the machine: it is the list of what
  the next calls of \<^verbatim>\<open>int(input("--> "))\<close> yield, each an integer or the exception of
  \<^verbatim>\<open>int\<close> on a line that is no integer, and a closed console raises \<^verbatim>\<open>EOFError\<close>.
  Only \<^verbatim>\<open>get_input\<close> touches it.
\<close>

type_synonym console = "(error + int) list"

text \<open>
  A method that may raise and may mutate its state: it returns the exception or the
  result, and the state as it is when the method returns or raises.
\<close>

type_synonym ('a, 's) action = "'s \<Rightarrow> (error + 'a) \<times> 's"

definition return_val :: "'a \<Rightarrow> ('a, 's) action" where
  "return_val x s = (Inr x, s)"

definition raise_err :: "error \<Rightarrow> ('a, 's) action" where
  "raise_err e s = (Inl e, s)"

definition and_then :: "('a, 's) action \<Rightarrow> ('a \<Rightarrow> ('b, 's) action) \<Rightarrow> ('b, 's) action" where
  "and_then f g s = (case f s of (Inl e, s') \<Rightarrow> (Inl e, s') | (Inr x, s') \<Rightarrow> g x s')"

definition lift_err :: "error + 'a \<Rightarrow> ('a, 's) action" where
  "lift_err r s = (r, s)"

definition on_machine :: "('a, machine) action \<Rightarrow> ('a, machine \<times> console) action" where
  "on_machine f s = (let (r, m') = f (fst s) in (r, (m', snd s)))"

text \<open>\<^verbatim>\<open>__init__\<close>, lines 16-29. \<^verbatim>\<open>inputs=None\<close> is \<open>None\<close>.\<close>

definition init :: "int list \<Rightarrow> int list option \<Rightarrow> bool \<Rightarrow> bool \<Rightarrow> machine" where
  "init prog inps force_uninteractive dbg =
     \<lparr> program = fold (\<lambda>(index, i) d. dict_set d (int index) i) (enumerate 0 prog) [],
       output = [],
       pointer = 0,
       interactive = ((inps = None \<or> inps = Some []) \<and> \<not> force_uninteractive),
       inputs = (case inps of None \<Rightarrow> [] | Some xs \<Rightarrow> xs),
       relative_base = 0,
       debug = dbg \<rparr>"

text \<open>
  \<^verbatim>\<open>copy\<close>, lines 31-41. The result is the new machine and the machine that was
  copied, in this order: \<^verbatim>\<open>list(self.inputs)\<close> on line 34 runs the iterator of
  \<^verbatim>\<open>self\<close> to its end, and nothing assigns \<^verbatim>\<open>self.inputs\<close> afterwards.
\<close>

definition copy :: "machine \<Rightarrow> machine \<times> machine" where
  "copy self =
     (let res = init [] None False False;
          res = res\<lparr>program := program self\<rparr>;
          pending = inputs self;
          self = self\<lparr>inputs := []\<rparr>;
          res = res\<lparr>inputs := pending\<rparr>;
          res = res\<lparr>output := output self\<rparr>;
          res = res\<lparr>pointer := pointer self\<rparr>;
          res = res\<lparr>relative_base := relative_base self\<rparr>;
          res = res\<lparr>debug := debug self\<rparr>;
          res = res\<lparr>interactive := interactive self\<rparr>
      in (res, self))"

text \<open>\<^verbatim>\<open>get_input\<close>, lines 43-46.\<close>

definition get_input :: "(int, machine \<times> console) action" where
  "get_input s =
     (let (m, con) = s in
      if interactive m then
        (case con of [] \<Rightarrow> (Inl ConsoleClosed, s) | v # rest \<Rightarrow> (v, (m, rest)))
      else
        (case inputs m of [] \<Rightarrow> (Inl InputExhausted, s)
         | v # rest \<Rightarrow> (Inr v, (m\<lparr>inputs := rest\<rparr>, con))))"

text \<open>
  \<^verbatim>\<open>add_input\<close>, lines 48-56, takes any Python value: an int, a list (whose items are
  again any values), or something else.
\<close>

datatype pyval = PInt int | PList "pyval list" | POther

fun add_input :: "pyval \<Rightarrow> (unit, machine) action"
  and add_input_items :: "pyval list \<Rightarrow> (unit, machine) action" where
  "add_input (PInt val) m =
     (Inr (), m\<lparr>interactive := False, inputs := inputs m @ [val]\<rparr>)"
| "add_input (PList val) m = add_input_items val (m\<lparr>interactive := False\<rparr>)"
| "add_input POther m = (Inl InvalidInputArgument, m\<lparr>interactive := False\<rparr>)"
| "add_input_items [] m = (Inr (), m)"
| "add_input_items (i # rest) m =
     (case add_input i m of
        (Inl e, m') \<Rightarrow> (Inl e, m')
      | (Inr _, m') \<Rightarrow> add_input_items rest m')"

text \<open>\<^verbatim>\<open>num_parameters\<close>, lines 59-68.\<close>

definition num_parameters :: "int \<Rightarrow> error + nat" where
  "num_parameters opcode =
     (if opcode = 99 then Inr 0
      else if opcode \<in> set [1, 2, 7, 8] then Inr 3
      else if opcode \<in> set [5, 6] then Inr 2
      else if opcode \<in> set [3, 4, 9] then Inr 1
      else Inl (InvalidOpcode opcode))"

text \<open>\<^verbatim>\<open>self.program[x]\<close> and \<^verbatim>\<open>self.program[x] = v\<close> on the machine.\<close>

definition read_program :: "int \<Rightarrow> machine \<Rightarrow> int \<times> machine" where
  "read_program x m = (let (v, d) = dict_get (program m) x in (v, m\<lparr>program := d\<rparr>))"

definition write_program :: "int \<Rightarrow> int \<Rightarrow> machine \<Rightarrow> machine" where
  "write_program x v m = m\<lparr>program := dict_set (program m) x v\<rparr>"

text \<open>\<^verbatim>\<open>slice_program\<close>, lines 78-79; the range is the list of its members.\<close>

fun slice_program :: "int list \<Rightarrow> machine \<Rightarrow> int list \<times> machine" where
  "slice_program [] m = ([], m)"
| "slice_program (x # slice_range) m =
     (let (v, m') = read_program x m;
          (vs, m'') = slice_program slice_range m'
      in (v # vs, m''))"

subsection \<open>The operand resolver\<close>

text \<open>\<^verbatim>\<open>get_value\<close>, lines 81-91.\<close>

definition get_value :: "instruction \<Rightarrow> (int, machine) action" where
  "get_value instruction m =
     (if mode instruction = 0 then
        (let (v, m') = read_program (parameter instruction) m in (Inr v, m'))
      else if mode instruction = 1 then (Inr (parameter instruction), m)
      else if mode instruction = 2 then
        (let (v, m') = read_program (relative_base m + parameter instruction) m
         in (Inr v, m'))
      else (Inl (InvalidMode instruction), m))"

text \<open>\<^verbatim>\<open>get_write_value\<close>, lines 93-100. It has no \<^verbatim>\<open>raise\<close>.\<close>

definition get_write_value :: "instruction \<Rightarrow> machine \<Rightarrow> int" where
  "get_write_value instruction m =
     (if mode instruction = 2 then parameter instruction + relative_base m
      else parameter instruction)"

subsection \<open>The execution engine\<close>

text \<open>\<^verbatim>\<open>params[i]\<close>: the item, or \<^verbatim>\<open>IndexError\<close> when the list is too short.\<close>

definition param :: "instruction list \<Rightarrow> nat \<Rightarrow> (instruction, 's) action" where
  "param params i = (if i < length params then return_val (params ! i) else raise_err IndexError)"

definition store :: "instruction \<Rightarrow> int \<Rightarrow> (unit, machine) action" where
  \<comment> \<open>\<^verbatim>\<open>self.program[self.get_write_value(p)] = v\<close>\<close>
  "store p v m = (Inr (), write_program (get_write_value p m) v m)"

text \<open>
  \<^verbatim>\<open>execute_opcode\<close>, lines 102-146. Python evaluates the right-hand side of an
  assignment before the subscript of its target, and operands left to right. The
  \<^verbatim>\<open>print\<close> of line 106 writes to standard output only and is left out. The result is
  whether the caller shall advance the pointer.
\<close>

definition execute_opcode :: "int \<Rightarrow> instruction list \<Rightarrow> (bool, machine \<times> console) action" where
  "execute_opcode opcode params =
     (if opcode = 1 then
        and_then (param params 0) (\<lambda>p0. and_then (on_machine (get_value p0)) (\<lambda>a.
        and_then (param params 1) (\<lambda>p1. and_then (on_machine (get_value p1)) (\<lambda>b.
        and_then (param params 2) (\<lambda>p2. and_then (on_machine (store p2 (a + b))) (\<lambda>_.
        return_val True))))))
      else if opcode = 2 then
        and_then (param params 0) (\<lambda>p0. and_then (on_machine (get_value p0)) (\<lambda>a.
        and_then (param params 1) (\<lambda>p1. and_then (on_machine (get_value p1)) (\<lambda>b.
        and_then (param params 2) (\<lambda>p2. and_then (on_machine (store p2 (a * b))) (\<lambda>_.
        return_val True))))))
      else if opcode = 3 then
        and_then get_input (\<lambda>v.
        and_then (param params 0) (\<lambda>p0. and_then (on_machine (store p0 v)) (\<lambda>_.
        return_val True)))
      else if opcode = 4 then
        and_then (param params 0) (\<lambda>p0. and_then (on_machine (get_value p0)) (\<lambda>a.
        and_then (on_machine (\<lambda>m. (Inr (), m\<lparr>output := output m @ [a]\<rparr>))) (\<lambda>_.
        return_val True)))
      else if opcode = 5 then
        and_then (param params 0) (\<lambda>p0. and_then (on_machine (get_value p0)) (\<lambda>a.
        if a \<noteq> 0 then
          and_then (param params 1) (\<lambda>p1. and_then (on_machine (get_value p1)) (\<lambda>target.
          and_then (on_machine (\<lambda>m. (Inr (), m\<lparr>pointer := target\<rparr>))) (\<lambda>_.
          return_val False)))
        else return_val True))
      else if opcode = 6 then
        and_then (param params 0) (\<lambda>p0. and_then (on_machine (get_value p0)) (\<lambda>a.
        if a = 0 then
          and_then (param params 1) (\<lambda>p1. and_then (on_machine (get_value p1)) (\<lambda>target.
          and_then (on_machine (\<lambda>m. (Inr (), m\<lparr>pointer := target\<rparr>))) (\<lambda>_.
          return_val False)))
        else return_val True))
      else if opcode = 7 then
        and_then (param params 0) (\<lambda>p0. and_then (on_machine (get_value p0)) (\<lambda>a.
        and_then (param params 1) (\<lambda>p1. and_then (on_machine (get_value p1)) (\<lambda>b.
        and_then (param params 2) (\<lambda>p2.
        and_then (on_machine (store p2 (if a < b then 1 else 0))) (\<lambda>_.
        return_val True))))))
      else if opcode = 8 then
        and_then (param params 0) (\<lambda>p0. and_then (on_machine (get_value p0)) (\<lambda>a.
        and_then (param params 1) (\<lambda>p1. and_then (on_machine (get_value p1)) (\<lambda>b.
        and_then (param params 2) (\<lambda>p2.
        and_then (on_machine (store p2 (if a = b then 1 else 0))) (\<lambda>_.
        return_val True))))))
      else if opcode = 9 then
        and_then (param params 0) (\<lambda>p0. and_then (on_machine (get_value p0)) (\<lambda>a.
        and_then (on_machine (\<lambda>m. (Inr (), m\<lparr>relative_base := relative_base m + a\<rparr>))) (\<lambda>_.
        return_val True)))
      else return_val True)"

text \<open>
  \<^verbatim>\<open>__str__\<close>, lines 185-188, which \<^verbatim>\<open>print(self)\<close> on line 170 calls. The text it
  builds goes to standard output and is left out; what stays is that \<^verbatim>\<open>max\<close> raises
  on a dict without keys and that the dump reads every address from 0 to the largest key.
\<close>

definition str_machine :: "(unit, machine) action" where
  "str_machine m =
     (case map fst (program m) of
        [] \<Rightarrow> (Inl EmptyMax, m)
      | k # ks \<Rightarrow> (let max_index = fold max ks k in
                   (Inr (), snd (slice_program [0..max_index] m))))"

text \<open>
  One pass through the body of the \<^verbatim>\<open>while True\<close> of \<^verbatim>\<open>run\<close>, lines 152-178:
  either the loop goes on, or \<^verbatim>\<open>run\<close> returns \<^verbatim>\<open>True\<close> (halted) or \<^verbatim>\<open>False\<close>
  (the bound on new outputs is reached).
\<close>

datatype step = Next | Return bool

definition run_body :: "int option \<Rightarrow> nat \<Rightarrow> (step, machine \<times> console) action" where
  "run_body num_outputs original_num_outputs =
     and_then (on_machine (\<lambda>m. let (w, m') = read_program (pointer m) m in (Inr w, m'))) (\<lambda>w.
     and_then (lift_err (parse_opcode w)) (\<lambda>(opcode, mode0, mode1, mode2).
     if opcode \<notin> set valid_opcodes then raise_err (InvalidOpcode opcode)
     else if opcode = 99 then return_val (Return True)
     else
       and_then (lift_err (num_parameters opcode)) (\<lambda>num_params.
       and_then (on_machine (\<lambda>m.
         let (cells, m') = slice_program [pointer m + 1 .. pointer m + int num_params] m
         in (Inr cells, m'))) (\<lambda>cells.
       and_then (return_val (map (\<lambda>(index, param). Instruction param ([mode0, mode1, mode2] ! index))
                  (enumerate 0 cells))) (\<lambda>params.
       and_then (on_machine (\<lambda>m. if debug m then str_machine m else (Inr (), m))) (\<lambda>_.
       and_then (execute_opcode opcode params) (\<lambda>should_increment_pointer.
       and_then (on_machine (\<lambda>m.
         if should_increment_pointer
         then (Inr (), m\<lparr>pointer := pointer m + int num_params + 1\<rparr>)
         else (Inr (), m))) (\<lambda>_.
       (\<lambda>s. if num_outputs \<noteq> None \<and> num_outputs \<noteq> Some 0
                 \<and> Some (int (length (output (fst s))) - int original_num_outputs) = num_outputs
            then (Inr (Return False), s)
            else (Inr Next, s))))))))))"

text \<open>
  The loop itself may run forever, so it is a partial function: \<open>None\<close> is a run that
  never returns.
\<close>

partial_function (option) run_loop ::
  "int option \<Rightarrow> nat \<Rightarrow> machine \<times> console \<Rightarrow> ((error + bool) \<times> machine \<times> console) option" where
  "run_loop num_outputs original_num_outputs s =
     (case run_body num_outputs original_num_outputs s of
        (Inl e, s') \<Rightarrow> Some (Inl e, s')
      | (Inr (Return halted), s') \<Rightarrow> Some (Inr halted, s')
      | (Inr Next, s') \<Rightarrow> run_loop num_outputs original_num_outputs s')"

text \<open>
  \<^verbatim>\<open>run\<close>, lines 148-178. \<^verbatim>\<open>num_outputs=None\<close> is \<open>None\<close>; \<^verbatim>\<open>bool(num_outputs)\<close> is
  false for \<^verbatim>\<open>None\<close> and for 0. The result \<open>True\<close> is the specification's Halted,
  \<open>False\<close> its Suspended.
\<close>

definition run :: "int option \<Rightarrow> machine \<times> console \<Rightarrow> ((error + bool) \<times> machine \<times> console) option" where
  "run num_outputs s = run_loop num_outputs (length (output (fst s))) s"

subsection \<open>Diagnostics\<close>

text \<open>
  \<^verbatim>\<open>diagnostic\<close>, lines 180-183. \<^verbatim>\<open>self.output[:-1]\<close> is the list without its last
  item, and the empty list when the list is empty; \<^verbatim>\<open>self.output[-1]\<close> raises
  \<^verbatim>\<open>IndexError\<close> on the empty list.
\<close>

definition diagnostic :: "machine \<Rightarrow> error + int" where
  "diagnostic m =
     (if \<not> list_all (\<lambda>b. b) (map (\<lambda>x. x = 0) (butlast (output m)))
      then Inl (BadDiagnostic (butlast (output m)))
      else if output m = [] then Inl IndexError
      else Inr (last (output m)))"

subsection \<open>Notions for the statements\<close>

text \<open>
  Machine \<open>m'\<close> comes from \<open>m\<close> by reading memory only: no attribute but the dict has
  changed, and every address reads as before (a read may have added a key with 0).
\<close>

definition reads_only :: "machine \<Rightarrow> machine \<Rightarrow> bool" where
  "reads_only m m' \<longleftrightarrow>
     m' = m\<lparr>program := program m'\<rparr> \<and> peek (program m') = peek (program m)"

text \<open>
  \<open>passes n orig s t\<close>: the loop of \<open>run\<close>, started in \<open>s\<close>, has gone through its body
  some number of times without returning and is about to start the body in \<open>t\<close>.
\<close>

inductive passes :: "int option \<Rightarrow> nat \<Rightarrow> machine \<times> console \<Rightarrow> machine \<times> console \<Rightarrow> bool"
  for n :: "int option" and orig :: nat where
  no_pass: "passes n orig s s"
| one_more: "run_body n orig s = (Inr Next, t) \<Longrightarrow> passes n orig t u \<Longrightarrow> passes n orig s u"

text \<open>
  The addresses that the instruction at the pointer of \<open>m\<close> stores to: the third operand
  of opcodes 1, 2, 7 and 8 and the operand of opcode 3, resolved by \<open>get_write_value\<close>.
\<close>

definition write_target :: "machine \<Rightarrow> int set" where
  "write_target m =
     (case parse_opcode (peek (program m) (pointer m)) of
        Inl e \<Rightarrow> {}
      | Inr (op, mode0, mode1, mode2) \<Rightarrow>
          if op \<in> {1, 2, 7, 8}
          then {get_write_value (Instruction (peek (program m) (pointer m + 3)) mode2) m}
          else if op = 3
          then {get_write_value (Instruction (peek (program m) (pointer m + 1)) mode0) m}
          else {})"

text \<open>
  \<open>run_writes n orig s W\<close>: the loop of \<open>run\<close> started in \<open>s\<close> returns, and \<open>W\<close> holds
  the store addresses of the instructions it passes.
\<close>

inductive run_writes :: "int option \<Rightarrow> nat \<Rightarrow> machine \<times> console \<Rightarrow> int set \<Rightarrow> bool" where
  last_pass: "run_body n orig s = (r, s') \<Longrightarrow> r \<noteq> Inr Next \<Longrightarrow>
     run_writes n orig s (write_target (fst s))"
| next_pass: "run_body n orig s = (Inr Next, s') \<Longrightarrow> run_writes n orig s' W \<Longrightarrow>
     run_writes n orig s (write_target (fst s) \<union> W)"

text \<open>
  \<open>reachable prog W m\<close>: machine \<open>m\<close> comes from a machine built from the program
  image \<open>prog\<close> by a sequence of operations (stores and reads of single addresses,
  runs, copies, added input), and \<open>W\<close> holds every address stored to on the way.
\<close>

inductive reachable :: "int list \<Rightarrow> int set \<Rightarrow> machine \<Rightarrow> bool" for prog :: "int list" where
  fresh: "reachable prog {} (init prog inps force_uninteractive dbg)"
| written: "reachable prog W m \<Longrightarrow> reachable prog (insert b W) (write_program b v m)"
| read: "reachable prog W m \<Longrightarrow> reachable prog W (snd (read_program b m))"
| ran: "reachable prog W m \<Longrightarrow> run n (m, con) = Some (r, (m', con')) \<Longrightarrow>
     run_writes n (length (output m)) (m, con) W' \<Longrightarrow> reachable prog (W \<union> W') m'"
| cloned: "reachable prog W m \<Longrightarrow> reachable prog W (fst (copy m))"
| copied_from: "reachable prog W m \<Longrightarrow> reachable prog W (snd (copy m))"
| input_added: "reachable prog W m \<Longrightarrow> reachable prog W (snd (add_input val m))"

section \<open>The decoder on instruction words\<close>

lemma digit_cases:
  "d < 10 \<Longrightarrow> d = 0 \<or> d = 1 \<or> d = 2 \<or> d = 3 \<or> d = 4 \<or> d = 5 \<or> d = 6 \<or> d = 7 \<or> d = 8 \<or> d = (9::nat)"
  by arith

lemma digit_char_neq_sign:
  assumes "d < 10"
  shows "digit_char d \<noteq> CHR ''-'' \<and> digit_char d \<noteq> CHR ''+''"
  using digit_cases [OF assms] by (elim disjE) (simp_all add: digit_char_def)

lemma digit_val_digit_char:
  assumes "d < 10"
  shows "digit_val (digit_char d) = Some d"
  using digit_cases [OF assms] by (elim disjE) (simp_all add: digit_char_def digit_val_def)

lemma py_int_digit: "d < 10 \<Longrightarrow> py_int [digit_char d] = Inr (int d)"
  by (simp add: py_int_def digit_char_neq_sign digit_val_digit_char)

lemma py_int_two_digits:
  "a < 10 \<Longrightarrow> b < 10 \<Longrightarrow> py_int [digit_char a, digit_char b] = Inr (int (10 * a + b))"
  by (simp add: py_int_def digit_char_neq_sign digit_val_digit_char)

lemma str_nat_digit: "n < 10 \<Longrightarrow> str_nat n = [digit_char n]"
  by (simp add: str_nat.simps [of n])

lemma str_nat_more: "10 \<le> n \<Longrightarrow> str_nat n = str_nat (n div 10) @ [digit_char (n mod 10)]"
  by (simp add: str_nat.simps [of n])

lemma replicate_zeros:
  "replicate 4 c = [c, c, c, c]" "replicate 3 c = [c, c, c]" "replicate 2 c = [c, c]"
  by (simp_all add: numeral_eq_Suc)

text \<open>A natural number below 100000, padded to five characters, is its five digits.\<close>

lemma str_nat_five:
  assumes "n < 100000"
  shows "zfill 5 (str_nat n) =
    [digit_char (n div 10000), digit_char (n div 1000 mod 10), digit_char (n div 100 mod 10),
     digit_char (n div 10 mod 10), digit_char (n mod 10)]"
proof -
  have z: "digit_char 0 = CHR ''0''" by (simp add: digit_char_def)
  have d2: "n div 10 div 10 = n div 100" and d3: "n div 100 div 10 = n div 1000"
    and d4: "n div 1000 div 10 = n div 10000" by (simp_all add: div_mult2_eq [symmetric])
  consider "n < 10" | "10 \<le> n" "n < 100" | "100 \<le> n" "n < 1000"
    | "1000 \<le> n" "n < 10000" | "10000 \<le> n" by linarith
  then show ?thesis
  proof cases
    case 1
    then show ?thesis
      by (simp add: str_nat_digit zfill_def digit_char_neq_sign z replicate_zeros)
  next
    case 2
    then have b: "n div 10 < 10" by (simp add: div_less_iff_less_mult)
    with 2 have "str_nat n = [digit_char (n div 10), digit_char (n mod 10)]"
      by (simp add: str_nat_more str_nat_digit)
    with 2 b show ?thesis
      by (simp add: zfill_def digit_char_neq_sign z replicate_zeros)
  next
    case 3
    then have b: "10 \<le> n div 10" "n div 100 < 10" "10 \<le> n"
      by (simp_all add: div_less_iff_less_mult less_eq_div_iff_mult_less_eq)
    then have "str_nat n = [digit_char (n div 100), digit_char (n div 10 mod 10), digit_char (n mod 10)]"
      by (simp add: str_nat_more [of n] str_nat_more [of "n div 10"] str_nat_digit d2)
    with 3 b show ?thesis
      by (simp add: zfill_def digit_char_neq_sign z replicate_zeros)
  next
    case 4
    then have b: "10 \<le> n div 10" "10 \<le> n div 100" "n div 1000 < 10" "10 \<le> n"
      by (simp_all add: div_less_iff_less_mult less_eq_div_iff_mult_less_eq)
    then have "str_nat n = [digit_char (n div 1000), digit_char (n div 100 mod 10),
        digit_char (n div 10 mod 10), digit_char (n mod 10)]"
      by (simp add: str_nat_more [of n] str_nat_more [of "n div 10"]
          str_nat_more [of "n div 100"] str_nat_digit d2 d3)
    with 4 b show ?thesis
      by (simp add: zfill_def digit_char_neq_sign z replicate_zeros)
  next
    case 5
    with assms have b: "10 \<le> n div 10" "10 \<le> n div 100" "10 \<le> n div 1000"
      "n div 10000 < 10" "10 \<le> n"
      by (simp_all add: div_less_iff_less_mult less_eq_div_iff_mult_less_eq)
    then have "str_nat n = [digit_char (n div 10000), digit_char (n div 1000 mod 10),
        digit_char (n div 100 mod 10), digit_char (n div 10 mod 10), digit_char (n mod 10)]"
      by (simp add: str_nat_more [of n] str_nat_more [of "n div 10"]
          str_nat_more [of "n div 100"] str_nat_more [of "n div 1000"] str_nat_digit d2 d3 d4)
    then show ?thesis
      by (simp add: zfill_def)
  qed
qed

lemma parse_opcode_digits:
  assumes "a < 10" "b < 10" "c < 10" "d < 10" "e < 10"
    and "zfill 5 (str_int w) =
      [digit_char a, digit_char b, digit_char c, digit_char d, digit_char e]"
  shows "parse_opcode w = Inr (int (10 * d + e), int c, int b, int a)"
  unfolding parse_opcode_def assms(6) Let_def
  using assms(1-5)
  by (simp add: bind_err_def char_at_def py_int_digit py_int_two_digits
      del: of_nat_add of_nat_mult)

lemma parse_opcode_value:
  assumes "0 \<le> w" "w \<le> 99999"
  shows "parse_opcode w = Inr (w mod 100, w div 100 mod 10, w div 1000 mod 10, w div 10000 mod 10)"
proof -
  define n where "n = nat w"
  have n: "n < 100000" "w = int n" using assms by (simp_all add: n_def)
  have b: "n div 10000 < 10" using n(1) by (simp add: div_less_iff_less_mult)
  have m: "10 * (n div 10 mod 10) + n mod 10 = n mod 100"
    using mod_mult2_eq [of n 10 10] by simp
  have q: "n div 10000 mod 10 = n div 10000" using b by simp
  have p: "zfill 5 (str_int w) = [digit_char (n div 10000), digit_char (n div 1000 mod 10),
     digit_char (n div 100 mod 10), digit_char (n div 10 mod 10), digit_char (n mod 10)]"
    using str_nat_five [OF n(1)] assms by (simp add: str_int_def n_def)
  have "parse_opcode w = Inr (int (10 * (n div 10 mod 10) + n mod 10), int (n div 100 mod 10),
      int (n div 1000 mod 10), int (n div 10000))"
    by (rule parse_opcode_digits [OF _ _ _ _ _ p]) (simp_all add: b)
  also have "\<dots> = Inr (int (n mod 100), int (n div 100 mod 10), int (n div 1000 mod 10),
      int (n div 10000 mod 10))"
    by (simp only: m q)
  finally show ?thesis
    by (simp add: n(2) zdiv_int zmod_int)
qed

lemma parse_opcode_102: "parse_opcode 102 = Inr (2, 1, 0, 0)"
  using parse_opcode_value [of 102] by simp

lemma padded_123456: "zfill 5 (str_int 123456) = ''123456''"
  by (simp add: str_int_def str_nat.simps digit_char_def zfill_def)

lemma parse_opcode_123456: "parse_opcode 123456 = Inr (456, 3, 2, 1)"
  unfolding parse_opcode_def padded_123456
  by (simp add: bind_err_def char_at_def py_int_def digit_val_def)

lemma padded_minus_1: "zfill 5 (str_int (- 1)) = ''-0001''"
  by (simp add: str_int_def str_nat.simps digit_char_def zfill_def replicate_zeros)

lemma parse_opcode_minus_1: "parse_opcode (- 1) = Inl (InvalidLiteral ''-'')"
  unfolding parse_opcode_def padded_minus_1
  by (simp add: bind_err_def char_at_def py_int_def digit_val_def)

text \<open>
  Claim C2, as amended. For every instruction word \<open>w\<close> from 0 to 99999, \<open>parse_opcode\<close>
  reads \<open>w\<close> as five decimal digits padded with zeros on the left: the last two digits
  are the opcode, and the three digits above them, read from the least significant
  (the hundreds) upwards, are the modes of operands 1, 2 and 3.
\<close>

theorem parse_opcode_five_digits:
  "0 \<le> w \<Longrightarrow> w \<le> 99999 \<Longrightarrow>
   parse_opcode w = Inr (w mod 100, w div 100 mod 10, w div 1000 mod 10, w div 10000 mod 10)"
  by (rule parse_opcode_value)

theorem parse_opcode_five_digits_witness:
  "(0::int) \<le> 1002 \<and> (1002::int) \<le> 99999 \<and> parse_opcode 1002 = Inr (2, 0, 1, 0)"
  using parse_opcode_five_digits [of 1002] by simp

text \<open>
  The claim as the specification has it fails in two ways. The word 102 has the mode 1
  in its hundreds digit: the code gives it to operand 1, the specification's reading
  (most significant digit first) to operand 3. And a word outside 0..99999 is not read
  as five digits: 123456 has the opcode 456, and a negative word raises, because the
  first character of the padded string is the minus sign.
\<close>

theorem parse_opcode_spec_counterexample:
  "parse_opcode 102 = Inr (2, 1, 0, 0) \<and> decode_spec 102 = (2, 0, 0, 1)
   \<and> parse_opcode 123456 = Inr (456, 3, 2, 1) \<and> decode_spec 123456 = (56, 2, 3, 4)
   \<and> parse_opcode (- 1) = Inl (InvalidLiteral ''-'')"
  by (simp add: decode_spec_def parse_opcode_102 parse_opcode_123456 parse_opcode_minus_1)

section \<open>Memory and the operations that only read it\<close>

lemma map_of_dict_set: "map_of (dict_set d k v) = (map_of d)(k \<mapsto> v)"
  by (induction d) auto

lemma peek_eq: "peek d a = (case map_of d a of None \<Rightarrow> 0 | Some v \<Rightarrow> v)"
  by (simp add: peek_def dict_get_def split: option.splits)

lemma peek_dict_set: "peek (dict_set d k v) a = (if a = k then v else peek d a)"
  by (simp add: peek_eq map_of_dict_set)

lemma peek_dict_get: "peek (snd (dict_get d k)) = peek d"
  by (rule ext) (simp add: dict_get_def peek_eq map_of_dict_set split: option.splits)

lemma read_program_eq:
  "read_program x m = (peek (program m) x, m\<lparr>program := snd (dict_get (program m) x)\<rparr>)"
  by (simp add: read_program_def peek_def split: prod.splits)

lemma reads_only_refl: "reads_only m m"
  by (simp add: reads_only_def)

lemma reads_only_trans: "reads_only m m' \<Longrightarrow> reads_only m' m'' \<Longrightarrow> reads_only m m''"
  unfolding reads_only_def by (metis machine.surjective machine.update_convs(1))

lemma reads_only_fields:
  assumes "reads_only m m'"
  shows "output m' = output m" "pointer m' = pointer m" "interactive m' = interactive m"
    "inputs m' = inputs m" "relative_base m' = relative_base m" "debug m' = debug m"
    "peek (program m') = peek (program m)"
  using assms unfolding reads_only_def
  by (metis machine.select_convs machine.surjective machine.update_convs(1))+

lemma reads_only_read_program: "reads_only m (snd (read_program x m))"
  by (simp add: read_program_eq reads_only_def peek_dict_get)

lemma fst_read_program: "fst (read_program x m) = peek (program m) x"
  by (simp add: read_program_eq)

lemma reads_only_slice_program: "reads_only m (snd (slice_program xs m))"
proof (induction xs arbitrary: m)
  case Nil
  show ?case by (simp add: reads_only_refl)
next
  case (Cons x xs)
  have "reads_only m (snd (read_program x m))" by (rule reads_only_read_program)
  moreover have "reads_only (snd (read_program x m)) (snd (slice_program xs (snd (read_program x m))))"
    by (rule Cons.IH)
  ultimately show ?case
    by (simp add: case_prod_beta reads_only_trans)
qed

lemma fst_slice_program: "fst (slice_program xs m) = map (peek (program m)) xs"
proof (induction xs arbitrary: m)
  case Nil
  show ?case by simp
next
  case (Cons x xs)
  show ?case
    by (simp add: case_prod_beta Cons.IH fst_read_program
        reads_only_fields(7) [OF reads_only_read_program])
qed

lemma reads_only_get_value: "reads_only m (snd (get_value i m))"
  by (simp add: get_value_def case_prod_beta reads_only_refl reads_only_read_program)

lemma reads_only_str_machine: "reads_only m (snd (str_machine m))"
  by (simp add: str_machine_def reads_only_refl reads_only_slice_program split: list.splits)

lemmas read_only_simps =
  reads_only_fields [OF reads_only_read_program]
  reads_only_fields [OF reads_only_slice_program]
  reads_only_fields [OF reads_only_str_machine]
  reads_only_fields [OF reads_only_get_value]

lemma reads_only_all:
  assumes "reads_only m m'"
  shows "output m' = output m \<and> pointer m' = pointer m \<and> interactive m' = interactive m
    \<and> inputs m' = inputs m \<and> relative_base m' = relative_base m \<and> debug m' = debug m
    \<and> peek (program m') = peek (program m)"
  using reads_only_fields [OF assms] by simp

lemma get_value_reads_only: "get_value i m = (r, m') \<Longrightarrow> reads_only m m'"
  using reads_only_get_value [of m i] by simp

lemmas get_value_fields = get_value_reads_only [THEN reads_only_all]

section \<open>Effects of one instruction\<close>

lemma and_then_split:
  "and_then f g s = (r, s') \<longleftrightarrow>
     (\<exists>e. f s = (Inl e, s') \<and> r = Inl e) \<or> (\<exists>x t. f s = (Inr x, t) \<and> g x t = (r, s'))"
  by (auto simp: and_then_def split: prod.splits sum.splits)

lemma on_machine_split:
  "on_machine f s = (r, s') \<longleftrightarrow> (\<exists>m'. f (fst s) = (r, m') \<and> s' = (m', snd s))"
  by (auto simp: on_machine_def split: prod.splits)

lemma param_split:
  "param ps i s = (r, s') \<longleftrightarrow>
     s' = s \<and> (if i < length ps then r = Inr (ps ! i) else r = Inl IndexError)"
  by (auto simp: param_def return_val_def raise_err_def)

lemma return_val_split: "return_val x s = (r, s') \<longleftrightarrow> r = Inr x \<and> s' = s"
  by (auto simp: return_val_def)

lemma raise_err_split: "raise_err e s = (r, s') \<longleftrightarrow> r = Inl e \<and> s' = s"
  by (auto simp: raise_err_def)

lemma lift_err_split: "lift_err x s = (r, s') \<longleftrightarrow> r = x \<and> s' = s"
  by (auto simp: lift_err_def)

lemmas action_splits = and_then_split on_machine_split param_split return_val_split
  raise_err_split lift_err_split

lemma get_input_fields:
  "get_input s = (r, s') \<Longrightarrow>
     interactive (fst s') = interactive (fst s) \<and> debug (fst s') = debug (fst s)
     \<and> output (fst s') = output (fst s) \<and> program (fst s') = program (fst s)
     \<and> relative_base (fst s') = relative_base (fst s) \<and> pointer (fst s') = pointer (fst s)"
  by (auto simp: get_input_def split: prod.splits if_splits list.splits)

lemma execute_opcode_interactive:
  assumes "execute_opcode op ps s = (r, s')"
  shows "interactive (fst s') = interactive (fst s)"
  using assms unfolding execute_opcode_def
  by (auto simp: action_splits store_def write_program_def
      split: if_splits dest!: get_value_fields get_input_fields)

lemma execute_opcode_debug:
  assumes "execute_opcode op ps s = (r, s')"
  shows "debug (fst s') = debug (fst s)"
  using assms unfolding execute_opcode_def
  by (auto simp: action_splits store_def write_program_def
      split: if_splits dest!: get_value_fields get_input_fields)

lemma execute_opcode_output:
  assumes "execute_opcode op ps s = (r, s')"
  shows "output (fst s') = output (fst s) \<or>
         (op = 4 \<and> r = Inr True \<and> (\<exists>v. output (fst s') = output (fst s) @ [v]))"
  using assms unfolding execute_opcode_def
  by (auto simp: action_splits store_def write_program_def
      split: if_splits dest!: get_value_fields get_input_fields)

section \<open>One pass through the loop of \<^verbatim>\<open>run\<close>\<close>

lemma num_parameters_valid:
  assumes "op \<in> set valid_opcodes"
  shows "\<exists>k. num_parameters op = Inr k \<and> k \<le> 3"
  using assms by (auto simp: valid_opcodes_def num_parameters_def)

lemmas action_defs = and_then_def on_machine_def lift_err_def return_val_def raise_err_def

lemma run_body_parse_error:
  assumes "parse_opcode (peek (program m) (pointer m)) = Inl e"
  shows "run_body n orig (m, c) = (Inl e, (snd (read_program (pointer m) m), c))"
  unfolding run_body_def
  by (simp add: action_defs case_prod_beta fst_read_program assms)

lemma run_body_invalid_opcode:
  assumes "parse_opcode (peek (program m) (pointer m)) = Inr (op, md0, md1, md2)"
    and "op \<notin> set valid_opcodes"
  shows "run_body n orig (m, c) = (Inl (InvalidOpcode op), (snd (read_program (pointer m) m), c))"
  unfolding run_body_def
  by (simp add: action_defs case_prod_beta fst_read_program assms)

lemma run_body_halt:
  assumes "parse_opcode (peek (program m) (pointer m)) = Inr (99, md0, md1, md2)"
  shows "run_body n orig (m, c) = (Inr (Return True), (snd (read_program (pointer m) m), c))"
  unfolding run_body_def
  by (simp add: action_defs case_prod_beta fst_read_program assms valid_opcodes_def)

lemma dict_set_nonempty: "dict_set d k v \<noteq> []"
  by (cases d) (auto split: if_splits)

lemma dict_get_nonempty: "snd (dict_get d k) \<noteq> []"
  by (cases d) (auto simp: dict_get_def dict_set_nonempty split: option.splits)

lemma read_program_nonempty: "program (snd (read_program x m)) \<noteq> []"
  by (simp add: read_program_eq dict_get_nonempty)

lemma slice_program_nonempty:
  "program m \<noteq> [] \<Longrightarrow> program (snd (slice_program xs m)) \<noteq> []"
proof (induction xs arbitrary: m)
  case Nil
  then show ?case by simp
next
  case (Cons x xs)
  have "program (snd (read_program x m)) \<noteq> []" by (rule read_program_nonempty)
  from Cons.IH [OF this] show ?case by (simp add: case_prod_beta)
qed

lemma str_machine_ok: "program m \<noteq> [] \<Longrightarrow> fst (str_machine m) = Inr ()"
  by (cases "program m") (simp_all add: str_machine_def)

lemma run_body_execute:
  assumes p: "parse_opcode (peek (program m) (pointer m)) = Inr (op, md0, md1, md2)"
    and v: "op \<in> set valid_opcodes" "op \<noteq> 99"
    and k: "num_parameters op = Inr k"
    and m1: "m1 = snd (slice_program [pointer m + 1 .. pointer m + int k] (snd (read_program (pointer m) m)))"
    and ps: "ps = map (\<lambda>(index, param). Instruction param ([md0, md1, md2] ! index))
               (enumerate 0 (map (peek (program m)) [pointer m + 1 .. pointer m + int k]))"
    and m2: "m2 = (if debug m then snd (str_machine m1) else m1)"
  shows "run_body n orig (m, c) =
     (case execute_opcode op ps (m2, c) of
        (Inl e, s') \<Rightarrow> (Inl e, s')
      | (Inr inc, s') \<Rightarrow>
          (Inr (if n \<noteq> None \<and> n \<noteq> Some 0
                   \<and> Some (int (length (output (fst s'))) - int orig) = n
                then Return False else Next),
           (if inc then (fst s')\<lparr>pointer := pointer (fst s') + int k + 1\<rparr> else fst s', snd s')))"
proof -
  have ne: "program m1 \<noteq> []"
    unfolding m1 by (intro slice_program_nonempty read_program_nonempty)
  note ok = str_machine_ok [OF ne, unfolded m1]
  obtain r s' where e: "execute_opcode op ps (m2, c) = (r, s')"
    by (cases "execute_opcode op ps (m2, c)")
  note e' = e [unfolded m2 m1 ps]
  show ?thesis
    unfolding e
  proof (cases "debug m")
    case True
    with e' show "run_body n orig (m, c) = (case (r, s') of
        (Inl e, s') \<Rightarrow> (Inl e, s')
      | (Inr inc, s') \<Rightarrow>
          (Inr (if n \<noteq> None \<and> n \<noteq> Some 0
                   \<and> Some (int (length (output (fst s'))) - int orig) = n
                then Return False else Next),
           (if inc then (fst s')\<lparr>pointer := pointer (fst s') + int k + 1\<rparr> else fst s', snd s')))"
      unfolding run_body_def
      by (cases r)
        (simp_all add: action_defs case_prod_beta fst_read_program fst_slice_program
          read_only_simps p v k ok)
  next
    case False
    with e' show "run_body n orig (m, c) = (case (r, s') of
        (Inl e, s') \<Rightarrow> (Inl e, s')
      | (Inr inc, s') \<Rightarrow>
          (Inr (if n \<noteq> None \<and> n \<noteq> Some 0
                   \<and> Some (int (length (output (fst s'))) - int orig) = n
                then Return False else Next),
           (if inc then (fst s')\<lparr>pointer := pointer (fst s') + int k + 1\<rparr> else fst s', snd s')))"
      unfolding run_body_def
      by (cases r)
        (simp_all add: action_defs case_prod_beta fst_read_program fst_slice_program
          read_only_simps p v k)
  qed
qed


lemma run_body_cases:
  assumes "run_body n orig (m, c) = (r, s')"
  obtains (stop) m' where "reads_only m m'" "s' = (m', c)"
      "r = Inr (Return True) \<or> (\<exists>e. r = Inl e)"
  | (exec) op md0 md1 md2 k ps m2 x t where
      "parse_opcode (peek (program m) (pointer m)) = Inr (op, md0, md1, md2)"
      "op \<in> set valid_opcodes" "op \<noteq> 99" "num_parameters op = Inr k"
      "ps = map (\<lambda>(index, param). Instruction param ([md0, md1, md2] ! index))
               (enumerate 0 (map (peek (program m)) [pointer m + 1 .. pointer m + int k]))"
      "reads_only m m2"
      "execute_opcode op ps (m2, c) = (x, t)"
      "(r, s') = (case (x, t) of
          (Inl e, t') \<Rightarrow> (Inl e, t')
        | (Inr inc, t') \<Rightarrow>
            (Inr (if n \<noteq> None \<and> n \<noteq> Some 0
                     \<and> Some (int (length (output (fst t'))) - int orig) = n
                  then Return False else Next),
             (if inc then (fst t')\<lparr>pointer := pointer (fst t') + int k + 1\<rparr> else fst t',
              snd t')))"
proof (cases "parse_opcode (peek (program m) (pointer m))")
  case (Inl e)
  from run_body_parse_error [OF Inl, of n orig c] assms
  have "s' = (snd (read_program (pointer m) m), c)" "r = Inl e" by simp_all
  then show ?thesis
    using stop [of "snd (read_program (pointer m) m)"] reads_only_read_program by blast
next
  case (Inr d)
  obtain op md0 md1 md2 where d: "d = (op, md0, md1, md2)" by (cases d)
  note p = Inr [unfolded d]
  show ?thesis
  proof (cases "op \<in> set valid_opcodes")
    case False
    from run_body_invalid_opcode [OF p False, of n orig c] assms
    have "s' = (snd (read_program (pointer m) m), c)" "r = Inl (InvalidOpcode op)" by simp_all
    then show ?thesis
      using stop [of "snd (read_program (pointer m) m)"] reads_only_read_program by blast
  next
    case True
    show ?thesis
    proof (cases "op = 99")
      case True
      from run_body_halt [OF p [unfolded True], of n orig c] assms
      have "s' = (snd (read_program (pointer m) m), c)" "r = Inr (Return True)" by simp_all
      then show ?thesis
        using stop [of "snd (read_program (pointer m) m)"] reads_only_read_program by blast
    next
      case False
      from num_parameters_valid [OF True] obtain k where k: "num_parameters op = Inr k" by blast
      define m1 where "m1 = snd (slice_program [pointer m + 1 .. pointer m + int k]
        (snd (read_program (pointer m) m)))"
      define ps where "ps = map (\<lambda>(index, param). Instruction param ([md0, md1, md2] ! index))
               (enumerate 0 (map (peek (program m)) [pointer m + 1 .. pointer m + int k]))"
      define m2 where "m2 = (if debug m then snd (str_machine m1) else m1)"
      have r1: "reads_only m m1"
        unfolding m1_def
        by (rule reads_only_trans [OF reads_only_read_program reads_only_slice_program])
      have r2: "reads_only m m2"
        unfolding m2_def using r1 reads_only_trans [OF r1 reads_only_str_machine] by simp
      obtain x t where e: "execute_opcode op ps (m2, c) = (x, t)"
        by (cases "execute_opcode op ps (m2, c)")
      from run_body_execute [OF p True False k m1_def ps_def m2_def, of n orig c] assms
      show ?thesis
        using exec [OF p True False k ps_def r2 e] by (simp add: e)
    qed
  qed
qed

lemma run_body_interactive:
  assumes "run_body n orig s = (r, s')"
  shows "interactive (fst s') = interactive (fst s)"
proof -
  obtain m c where s: "s = (m, c)" by (cases s)
  from assms [unfolded s] show ?thesis
  proof (cases rule: run_body_cases)
    case (stop m')
    then show ?thesis by (simp add: s reads_only_fields)
  next
    case (exec op md0 md1 md2 k ps m2 x t)
    from execute_opcode_interactive [OF exec(7)] exec(6)
    have "interactive (fst t) = interactive m" by (simp add: reads_only_fields)
    with exec(8) show ?thesis by (cases x) (auto simp: s split: if_splits)
  qed
qed

lemma run_body_output:
  assumes "run_body n orig s = (r, s')"
  shows "(output (fst s') = output (fst s) \<or> (\<exists>v. output (fst s') = output (fst s) @ [v]))
    \<and> (r = Inr (Return True) \<or> (\<exists>e. r = Inl e) \<longrightarrow> output (fst s') = output (fst s))
    \<and> (r = Inr (Return False) \<longrightarrow>
          n \<noteq> None \<and> n \<noteq> Some 0 \<and> Some (int (length (output (fst s'))) - int orig) = n)
    \<and> (r = Inr Next \<longrightarrow>
          \<not> (n \<noteq> None \<and> n \<noteq> Some 0 \<and> Some (int (length (output (fst s'))) - int orig) = n))"
proof -
  obtain m c where s: "s = (m, c)" by (cases s)
  from assms [unfolded s] show ?thesis
  proof (cases rule: run_body_cases)
    case (stop m')
    then show ?thesis by (auto simp: s reads_only_fields)
  next
    case (exec op md0 md1 md2 k ps m2 x t)
    from execute_opcode_output [OF exec(7)] exec(6)
    have o: "output (fst t) = output m \<or>
      (op = 4 \<and> x = Inr True \<and> (\<exists>v. output (fst t) = output m @ [v]))"
      by (simp add: reads_only_fields)
    show ?thesis
    proof (cases x)
      case (Inl e)
      with o exec(8) show ?thesis by (auto simp: s)
    next
      case (Inr inc)
      with o exec(8) show ?thesis by (auto simp: s split: if_splits)
    qed
  qed
qed

section \<open>The loop of \<^verbatim>\<open>run\<close>, input and copies\<close>

lemma run_loop_raise:
  "run_body n orig s = (Inl e, s') \<Longrightarrow> run_loop n orig s = Some (Inl e, s')"
  by (subst run_loop.simps) simp

lemma run_loop_return:
  "run_body n orig s = (Inr (Return b), s') \<Longrightarrow> run_loop n orig s = Some (Inr b, s')"
  by (subst run_loop.simps) simp

lemma run_loop_next:
  "run_body n orig s = (Inr Next, s') \<Longrightarrow> run_loop n orig s = run_loop n orig s'"
  by (subst run_loop.simps) simp

lemma run_loop_interactive:
  assumes "run_loop n orig s = Some (r, s')"
  shows "interactive (fst s') = interactive (fst s)"
proof -
  have "interactive (fst (snd y)) = interactive (fst s0)"
    if "run_loop n0 k0 s0 = Some y" for y n0 k0 s0
    using that
  proof (induction n0 k0 s0 y rule: run_loop.raw_induct [rotated 1, consumes 1, case_names step])
    case (step loop n orig s y)
    obtain r t where b: "run_body n orig s = (r, t)" by (cases "run_body n orig s")
    note i = run_body_interactive [OF b]
    show ?case
    proof (cases r)
      case (Inl e)
      with step(2) b i show ?thesis by auto
    next
      case (Inr st)
      show ?thesis
      proof (cases st)
        case Next
        with step(2) b Inr have "loop n orig t = Some y" by simp
        from step(1) [OF this] i show ?thesis by simp
      next
        case (Return halted)
        with step(2) b Inr i show ?thesis by auto
      qed
    qed
  qed
  from this [OF assms] show ?thesis by simp
qed

text \<open>With a positive bound, the loop returns False exactly when the bound is reached.\<close>

lemma run_loop_bound:
  assumes "run_loop (Some N) orig s = Some (r, s')" and "0 < N"
    and "int orig \<le> int (length (output (fst s)))"
    and "int (length (output (fst s))) - int orig < N"
  shows "\<exists>ys. output (fst s') = output (fst s) @ ys \<and>
    (if r = Inr False then int (length (output (fst s'))) - int orig = N
     else int (length (output (fst s'))) - int orig < N)"
proof -
  have "int k0 \<le> int (length (output (fst s0))) \<longrightarrow>
        int (length (output (fst s0))) - int k0 < N \<longrightarrow> n0 = Some N \<longrightarrow>
        (\<exists>ys. output (fst (snd y)) = output (fst s0) @ ys \<and>
          (if fst y = Inr False then int (length (output (fst (snd y)))) - int k0 = N
           else int (length (output (fst (snd y)))) - int k0 < N))"
    if "run_loop n0 k0 s0 = Some y" for y n0 k0 s0
    using that
  proof (induction n0 k0 s0 y rule: run_loop.raw_induct [rotated 1, consumes 1, case_names step])
    case (step loop n orig s y)
    obtain r t where b: "run_body n orig s = (r, t)" by (cases "run_body n orig s")
    note o = run_body_output [OF b]
    show ?case
    proof (intro impI)
      assume lo: "int orig \<le> int (length (output (fst s)))"
        and hi: "int (length (output (fst s))) - int orig < N" and n: "n = Some N"
      show "\<exists>ys. output (fst (snd y)) = output (fst s) @ ys \<and>
          (if fst y = Inr False then int (length (output (fst (snd y)))) - int orig = N
           else int (length (output (fst (snd y)))) - int orig < N)"
      proof (cases r)
        case (Inl e)
        with step(2) b have y: "y = (Inl e, t)" by auto
        from o Inl have "output (fst t) = output (fst s)" by simp
        with hi y show ?thesis by simp
      next
        case (Inr st)
        show ?thesis
        proof (cases st)
          case (Return halted)
          with step(2) b Inr have y: "y = (Inr halted, t)" by auto
          show ?thesis
          proof (cases halted)
            case True
            with o Inr Return have "output (fst t) = output (fst s)" by simp
            with hi y True show ?thesis by simp
          next
            case False
            with o Inr Return n have "int (length (output (fst t))) - int orig = N" by simp
            moreover from o have "\<exists>ys. output (fst t) = output (fst s) @ ys" by auto
            ultimately show ?thesis using y False by simp
          qed
        next
          case Next
          with step(2) b Inr have l: "loop n orig t = Some y" by simp
          from o Inr Next n \<open>0 < N\<close>
          have ne: "int (length (output (fst t))) - int orig \<noteq> N" by auto
          from o obtain zs where zs: "output (fst t) = output (fst s) @ zs" "length zs \<le> 1"
            by auto
          from zs lo hi ne have "int orig \<le> int (length (output (fst t)))"
            "int (length (output (fst t))) - int orig < N" by auto
          with step(1) [OF l] n obtain ys where
            "output (fst (snd y)) = output (fst t) @ ys"
            "if fst y = Inr False then int (length (output (fst (snd y)))) - int orig = N
             else int (length (output (fst (snd y)))) - int orig < N" by blast
          with zs(1) show ?thesis by auto
        qed
      qed
    qed
  qed
  from this [OF assms(1)] assms(2-4) show ?thesis by (auto split: if_splits)
qed

lemma add_input_sets_flag:
  "\<not> interactive (snd (add_input v m))"
  "\<not> interactive m \<Longrightarrow> \<not> interactive (snd (add_input_items vs m))"
proof (induction v m and vs m rule: add_input_add_input_items.induct)
  case (5 i rest m)
  obtain r m' where a: "add_input i m = (r, m')" by (cases "add_input i m")
  from "5.IH"(1) a have f: "\<not> interactive m'" by simp
  show ?case
  proof (cases r)
    case (Inl e)
    with a f show ?thesis by simp
  next
    case (Inr u)
    with a f "5.IH"(2) show ?thesis by auto
  qed
qed simp_all

lemma add_input_items_ints:
  "add_input_items (map PInt vs) m =
     (Inr (), if vs = [] then m else m\<lparr>interactive := False, inputs := inputs m @ vs\<rparr>)"
  by (induction vs arbitrary: m) auto

lemma copy_eq: "copy m = (m, m\<lparr>inputs := []\<rparr>)"
  by (simp add: copy_def init_def Let_def)

section \<open>Evaluation on given machines\<close>

lemma parse_opcode_small:
  "parse_opcode 0 = Inr (0, 0, 0, 0)" "parse_opcode 3 = Inr (3, 0, 0, 0)"
  "parse_opcode 4 = Inr (4, 0, 0, 0)" "parse_opcode 99 = Inr (99, 0, 0, 0)"
  "parse_opcode 104 = Inr (4, 1, 0, 0)"
  using parse_opcode_value [of 0] parse_opcode_value [of 3] parse_opcode_value [of 4]
    parse_opcode_value [of 99] parse_opcode_value [of 104]
  by simp_all

lemmas eval_defs = run_body_def action_defs read_program_def dict_get_def peek_def
  valid_opcodes_def num_parameters_def execute_opcode_def param_def get_value_def
  get_write_value_def store_def write_program_def get_input_def init_def

section \<open>The operand resolver\<close>

text \<open>
  Claim C3, as amended. For every raw operand and every mode outside {0, 1, 2},
  \<open>get_value\<close> fails with \<open>InvalidMode\<close> and leaves the machine as it was, while
  \<open>get_write_value\<close> does not fail: it returns the raw operand as the address, as it
  does for every mode other than 2.
\<close>

theorem resolver_invalid_mode:
  "mode i \<notin> {0, 1, 2} \<Longrightarrow>
     get_value i m = (Inl (InvalidMode i), m) \<and> get_write_value i m = parameter i"
  by (simp add: get_value_def get_write_value_def)

theorem resolver_invalid_mode_witness:
  "mode (Instruction 5 3) \<notin> {0, 1, 2}
   \<and> get_value (Instruction 5 3) (init [99] None False False)
       = (Inl (InvalidMode (Instruction 5 3)), init [99] None False False)
   \<and> get_write_value (Instruction 5 3) (init [99] None False False) = 5"
  using resolver_invalid_mode [of "Instruction 5 3" "init [99] None False False"] by simp

text \<open>
  With mode 3, and with the immediate mode 1, \<open>get_write_value\<close> returns the operand 5
  where the claim has it fail.
\<close>

theorem get_write_value_counterexample:
  "get_write_value (Instruction 5 3) (init [] None False False) = 5
   \<and> get_write_value (Instruction 5 1) (init [] None False False) = 5"
  by (simp add: get_write_value_def)

section \<open>Diagnostics\<close>

text \<open>
  Claim C5, as amended. For every output log that is not empty, \<open>diagnostic\<close> returns
  the last output if every output before the last is zero, and otherwise fails with
  \<open>BadDiagnostic\<close> carrying the outputs before the last. With the log [0, 0, 0, 42] it
  returns 42, with [0, 1, 0] it fails with \<open>BadDiagnostic\<close> of [0, 1].
\<close>

theorem diagnostic_nonempty:
  "(output m \<noteq> [] \<longrightarrow>
      diagnostic m = (if list_all (\<lambda>x. x = 0) (butlast (output m))
                      then Inr (last (output m))
                      else Inl (BadDiagnostic (butlast (output m)))))
   \<and> diagnostic (m\<lparr>output := [0, 0, 0, 42]\<rparr>) = Inr 42
   \<and> diagnostic (m\<lparr>output := [0, 1, 0]\<rparr>) = Inl (BadDiagnostic [0, 1])"
  by (simp add: diagnostic_def list_all_iff)

theorem diagnostic_nonempty_witness:
  "output ((init [] None False False)\<lparr>output := [0, 5]\<rparr>) \<noteq> []
   \<and> diagnostic ((init [] None False False)\<lparr>output := [0, 5]\<rparr>) = Inr 5"
  using diagnostic_nonempty [of "(init [] None False False)\<lparr>output := [0, 5]\<rparr>"] by simp

text \<open>
  On the empty log every output before the last is zero and there is no last output:
  a machine that has not run yet gets neither a result nor \<open>BadDiagnostic\<close>.
\<close>

theorem diagnostic_empty_counterexample:
  "diagnostic (init [] None False False) = Inl IndexError"
  by (simp add: diagnostic_def init_def)

text \<open>
  Claim C10. If the output log is empty, \<open>diagnostic\<close> neither returns a result nor
  fails with \<open>BadDiagnostic\<close>: the test of the outputs before the last passes on the
  empty list, and taking the last output raises \<open>IndexError\<close>.
\<close>

theorem diagnostic_empty_log:
  "output m = [] \<Longrightarrow> diagnostic m = Inl IndexError"
  by (simp add: diagnostic_def)

theorem diagnostic_empty_log_witness:
  "output (init [99] None False False) = []
   \<and> diagnostic (init [99] None False False) = Inl IndexError"
  using diagnostic_empty_log [of "init [99] None False False"] by (simp add: init_def)

section \<open>Failures of a run\<close>

lemma invalid_opcode_run:
  assumes "parse_opcode (peek (program m) (pointer m)) = Inr (op, md0, md1, md2)"
    and "op \<notin> {1, 2, 3, 4, 5, 6, 7, 8, 9, 99}"
  shows "run_body n orig (m, con) =
      (Inl (InvalidOpcode op), (m\<lparr>program := snd (dict_get (program m) (pointer m))\<rparr>, con))"
    and "run n (m, con) =
      Some (Inl (InvalidOpcode op), (m\<lparr>program := snd (dict_get (program m) (pointer m))\<rparr>, con))"
proof -
  from assms(2) have v: "op \<notin> set valid_opcodes" by (simp add: valid_opcodes_def)
  show b: "run_body n orig (m, con) =
      (Inl (InvalidOpcode op), (m\<lparr>program := snd (dict_get (program m) (pointer m))\<rparr>, con))"
    for n orig
    using run_body_invalid_opcode [OF assms(1) v] by (simp add: read_program_eq)
  show "run n (m, con) =
      Some (Inl (InvalidOpcode op), (m\<lparr>program := snd (dict_get (program m) (pointer m))\<rparr>, con))"
    unfolding run_def by (rule run_loop_raise [OF b])
qed

text \<open>
  Claim C6. For every machine whose current instruction word decodes to an opcode that
  is not one of 1, 2, 3, 4, 5, 6, 7, 8, 9, 99, one pass of the loop fails with
  \<open>InvalidOpcode\<close>, and so does the run, at once. The machine is left as the fetch of
  the word left it: pointer, relative base, input queue, output log and flags are those
  of before, and the dict is the one after the read of the word at the pointer, in which
  every address reads as before.
\<close>

theorem invalid_opcode_aborts:
  "parse_opcode (peek (program m) (pointer m)) = Inr (op, md0, md1, md2) \<Longrightarrow>
   op \<notin> {1, 2, 3, 4, 5, 6, 7, 8, 9, 99} \<Longrightarrow>
     run_body n orig (m, con) =
       (Inl (InvalidOpcode op), (m\<lparr>program := snd (dict_get (program m) (pointer m))\<rparr>, con))
     \<and> run n (m, con) =
       Some (Inl (InvalidOpcode op), (m\<lparr>program := snd (dict_get (program m) (pointer m))\<rparr>, con))
     \<and> peek (snd (dict_get (program m) (pointer m))) = peek (program m)"
  by (simp add: invalid_opcode_run peek_dict_get)

theorem invalid_opcode_aborts_witness:
  "parse_opcode (peek (program (init [] None False False)) (pointer (init [] None False False)))
     = Inr (0, 0, 0, 0)
   \<and> (0::int) \<notin> {1, 2, 3, 4, 5, 6, 7, 8, 9, 99}
   \<and> run None (init [] None False False, [])
     = Some (Inl (InvalidOpcode 0), ((init [] None False False)\<lparr>program := [(0, 0)]\<rparr>, []))"
proof -
  have p: "parse_opcode (peek (program (init [] None False False))
      (pointer (init [] None False False))) = Inr (0, 0, 0, 0)"
    by (simp add: init_def peek_def dict_get_def parse_opcode_small)
  from invalid_opcode_aborts [OF p, of None 0 "[]"] p show ?thesis
    by (simp add: init_def dict_get_def)
qed

section \<open>Bounded runs\<close>

lemma init_two_outputs:
  "init [104, a, 104, b, 99] None False False =
     \<lparr>program = [(0, 104), (1, a), (2, 104), (3, b), (4, 99)], output = [], pointer = 0,
      interactive = True, inputs = [], relative_base = 0, debug = False\<rparr>"
  by (simp add: init_def)

lemma two_outputs_first:
  "run_body (Some 1) 0
     (\<lparr>program = [(0, 104), (1, a), (2, 104), (3, b), (4, 99)], output = [], pointer = 0,
       interactive = True, inputs = [], relative_base = 0, debug = False\<rparr>, con) =
   (Inr (Return False),
    (\<lparr>program = [(0, 104), (1, a), (2, 104), (3, b), (4, 99)], output = [a], pointer = 2,
       interactive = True, inputs = [], relative_base = 0, debug = False\<rparr>, con))"
  by (simp add: eval_defs parse_opcode_small)

lemma two_outputs_second:
  "run_body None (Suc 0)
     (\<lparr>program = [(0, 104), (1, a), (2, 104), (3, b), (4, 99)], output = [a], pointer = 2,
       interactive = True, inputs = [], relative_base = 0, debug = False\<rparr>, con) =
   (Inr Next,
    (\<lparr>program = [(0, 104), (1, a), (2, 104), (3, b), (4, 99)], output = [a, b], pointer = 4,
       interactive = True, inputs = [], relative_base = 0, debug = False\<rparr>, con))"
  by (simp add: eval_defs parse_opcode_small)

lemma two_outputs_halt:
  "run_body None (Suc 0)
     (\<lparr>program = [(0, 104), (1, a), (2, 104), (3, b), (4, 99)], output = [a, b], pointer = 4,
       interactive = True, inputs = [], relative_base = 0, debug = False\<rparr>, con) =
   (Inr (Return True),
    (\<lparr>program = [(0, 104), (1, a), (2, 104), (3, b), (4, 99)], output = [a, b], pointer = 4,
       interactive = True, inputs = [], relative_base = 0, debug = False\<rparr>, con))"
  by (simp add: eval_defs parse_opcode_small)

lemma two_outputs_run:
  "run (Some 1) (init [104, a, 104, b, 99] None False False, con) =
     Some (Inr False, ((init [104, a, 104, b, 99] None False False)\<lparr>output := [a], pointer := 2\<rparr>, con))"
  "run None ((init [104, a, 104, b, 99] None False False)\<lparr>output := [a], pointer := 2\<rparr>, con) =
     Some (Inr True, ((init [104, a, 104, b, 99] None False False)\<lparr>output := [a, b], pointer := 4\<rparr>, con))"
  by (simp_all add: run_def init_two_outputs run_loop_return [OF two_outputs_first]
      run_loop_next [OF two_outputs_second] run_loop_return [OF two_outputs_halt])


lemma run_bound:
  assumes "0 < N" and "run (Some N) s = Some (r, s')"
  shows "\<exists>ys. output (fst s') = output (fst s) @ ys \<and>
           (if r = Inr False then int (length ys) = N else int (length ys) < N)"
proof -
  from run_loop_bound [OF assms(2) [unfolded run_def] assms(1)] assms(1)
  obtain ys where "output (fst s') = output (fst s) @ ys"
    "if r = Inr False then int (length (output (fst s'))) - int (length (output (fst s))) = N
     else int (length (output (fst s'))) - int (length (output (fst s))) < N"
    by auto
  then show ?thesis by (intro exI [of _ ys]) (auto split: if_splits)
qed

lemma run_body_reaches_bound:
  assumes "0 < N" and "run_body (Some N) orig s = (r, s')"
    and "int (length (output (fst s))) - int orig \<noteq> N"
    and "int (length (output (fst s'))) - int orig = N"
  shows "r = Inr (Return False)" and "run_loop (Some N) orig s = Some (Inr False, s')"
proof -
  note o = run_body_output [OF assms(2)]
  show r: "r = Inr (Return False)"
  proof (cases r)
    case (Inl e)
    with o assms(3,4) show ?thesis by auto
  next
    case (Inr st)
    show ?thesis
    proof (cases st)
      case Next
      with o Inr assms(1,4) show ?thesis by auto
    next
      case (Return halted)
      with o Inr assms(3,4) show ?thesis by (cases halted) auto
    qed
  qed
  show "run_loop (Some N) orig s = Some (Inr False, s')"
    by (rule run_loop_return [OF assms(2) [unfolded r]])
qed

lemma passes_run_loop:
  "passes n orig s t \<Longrightarrow> run_loop n orig s = run_loop n orig t"
  by (induction rule: passes.induct) (simp_all add: run_loop_next)

lemma passes_below_bound:
  assumes "passes (Some N) orig s t" and "0 < N"
    and "int (length (output (fst s))) - int orig \<noteq> N"
  shows "int (length (output (fst t))) - int orig \<noteq> N"
  using assms
proof (induction rule: passes.induct)
  case (no_pass s)
  then show ?case by simp
next
  case (one_more s t u)
  from run_body_output [OF one_more(1)] one_more(4)
  have "int (length (output (fst t))) - int orig \<noteq> N" by auto
  from one_more(3) [OF one_more(4) this] show ?case .
qed

lemma run_reaches_bound:
  assumes "0 < N" and "passes (Some N) (length (output (fst s))) s t"
    and "run_body (Some N) (length (output (fst s))) t = (r, s')"
    and "int (length (output (fst s'))) = int (length (output (fst s))) + N"
  shows "r = Inr (Return False)" and "run (Some N) s = Some (Inr False, s')"
proof -
  from assms(1) have "int (length (output (fst s))) - int (length (output (fst s))) \<noteq> N"
    by simp
  from passes_below_bound [OF assms(2,1) this]
  have b: "int (length (output (fst t))) - int (length (output (fst s))) \<noteq> N" .
  from assms(4) have e: "int (length (output (fst s'))) - int (length (output (fst s))) = N"
    by simp
  show "r = Inr (Return False)"
    by (rule run_body_reaches_bound(1) [OF assms(1,3) b e])
  show "run (Some N) s = Some (Inr False, s')"
    unfolding run_def passes_run_loop [OF assms(2)]
    by (rule run_body_reaches_bound(2) [OF assms(1,3) b e])
qed

text \<open>
  Claim C4. For every positive bound \<open>N\<close> given to \<open>run\<close>: a run that returns has
  appended to the output log, and it returns False (Suspended) exactly when it has
  appended \<open>N\<close> outputs, with fewer than \<open>N\<close> appended when it halts or fails. When,
  after any number of passes through the loop, the instruction of the next pass brings
  the number of new outputs to \<open>N\<close>, the run returns False with the state that this
  instruction left, so no further instruction is processed. In particular the program
  104, a, 104, b, 99 run with bound 1 suspends with the output log [a] and the pointer at
  the second output instruction, at address 2, and an unbounded run from that state
  halts with the output log [a, b].
\<close>

theorem run_suspends_at_bound:
  "0 < N \<Longrightarrow>
     (\<forall>s r s'. run (Some N) s = Some (r, s') \<longrightarrow>
        (\<exists>ys. output (fst s') = output (fst s) @ ys \<and>
           (if r = Inr False then int (length ys) = N else int (length ys) < N)))
   \<and> (\<forall>s t r s'. passes (Some N) (length (output (fst s))) s t
          \<and> run_body (Some N) (length (output (fst s))) t = (r, s')
          \<and> int (length (output (fst s'))) = int (length (output (fst s))) + N \<longrightarrow>
        r = Inr (Return False) \<and> run (Some N) s = Some (Inr False, s'))
   \<and> (\<forall>a b con.
        run (Some 1) (init [104, a, 104, b, 99] None False False, con) =
          Some (Inr False,
            ((init [104, a, 104, b, 99] None False False)\<lparr>output := [a], pointer := 2\<rparr>, con))
        \<and> run None ((init [104, a, 104, b, 99] None False False)\<lparr>output := [a], pointer := 2\<rparr>, con) =
          Some (Inr True,
            ((init [104, a, 104, b, 99] None False False)\<lparr>output := [a, b], pointer := 4\<rparr>, con)))"
  using run_bound run_reaches_bound two_outputs_run by blast

theorem run_suspends_at_bound_witness:
  "(0::int) < 1
   \<and> run (Some 1) (init [104, 7, 104, 8, 99] None False False, []) =
       Some (Inr False, ((init [104, 7, 104, 8, 99] None False False)\<lparr>output := [7], pointer := 2\<rparr>, []))
   \<and> (\<exists>ys. output ((init [104, 7, 104, 8, 99] None False False)\<lparr>output := [7], pointer := 2\<rparr>)
          = output (init [104, 7, 104, 8, 99] None False False) @ ys \<and> int (length ys) = 1)"
proof -
  have pos: "(0::int) < 1" by simp
  note t = run_suspends_at_bound [OF pos]
  from t have r: "run (Some 1) (init [104, 7, 104, 8, 99] None False False, []) =
       Some (Inr False, ((init [104, 7, 104, 8, 99] None False False)\<lparr>output := [7], pointer := 2\<rparr>, []))"
    by blast
  from t r have "\<exists>ys. output (fst ((init [104, 7, 104, 8, 99] None False False)\<lparr>output := [7], pointer := 2\<rparr>, []::console))
          = output (fst (init [104, 7, 104, 8, 99] None False False, []::console)) @ ys
        \<and> (if (Inr False :: error + bool) = Inr False then int (length ys) = 1 else int (length ys) < 1)"
    by blast
  with r show ?thesis by simp
qed

lemma execute_opcode_3_exhausted:
  "\<not> interactive m \<Longrightarrow> inputs m = [] \<Longrightarrow>
     execute_opcode 3 ps (m, con) = (Inl InputExhausted, (m, con))"
  by (simp add: execute_opcode_def and_then_def get_input_def)

lemma input_exhausted_run:
  assumes "\<not> interactive m" "inputs m = []"
    and p: "parse_opcode (peek (program m) (pointer m)) = Inr (3, md0, md1, md2)"
  shows "\<exists>m'. reads_only m m' \<and> run n (m, con) = Some (Inl InputExhausted, (m', con))"
proof -
  have v: "(3::int) \<in> set valid_opcodes" "(3::int) \<noteq> 99" by (simp_all add: valid_opcodes_def)
  have k: "num_parameters 3 = Inr 1" by (simp add: num_parameters_def)
  define m1 where "m1 = snd (slice_program [pointer m + 1 .. pointer m + int 1]
    (snd (read_program (pointer m) m)))"
  define ps where "ps = map (\<lambda>(index, param). Instruction param ([md0, md1, md2] ! index))
    (enumerate 0 (map (peek (program m)) [pointer m + 1 .. pointer m + int 1]))"
  define m2 where "m2 = (if debug m then snd (str_machine m1) else m1)"
  have r1: "reads_only m m1"
    unfolding m1_def
    by (rule reads_only_trans [OF reads_only_read_program reads_only_slice_program])
  have r2: "reads_only m m2"
    unfolding m2_def using r1 reads_only_trans [OF r1 reads_only_str_machine] by simp
  from assms(1,2) reads_only_fields [OF r2] have "\<not> interactive m2" "inputs m2 = []"
    by simp_all
  from execute_opcode_3_exhausted [OF this]
  have e: "execute_opcode 3 ps (m2, con) = (Inl InputExhausted, (m2, con))" .
  have "run_body n orig (m, con) = (Inl InputExhausted, (m2, con))" for orig
    using run_body_execute [OF p v k m1_def ps_def m2_def, of n orig con] by (simp add: e)
  then have "run n (m, con) = Some (Inl InputExhausted, (m2, con))"
    unfolding run_def by (rule run_loop_raise)
  with r2 show ?thesis by blast
qed

text \<open>
  Claim C7. For every machine in queued (non-interactive) mode whose pending input
  queue is empty, an input instruction (opcode 3) fails with \<open>InputExhausted\<close>:
  \<open>get_input\<close> raises it, \<open>execute_opcode\<close> raises it before anything is stored, and a
  run whose current instruction is an input instruction returns with this failure,
  having only read memory.
\<close>

theorem input_exhausted:
  "\<not> interactive m \<Longrightarrow> inputs m = [] \<Longrightarrow>
   parse_opcode (peek (program m) (pointer m)) = Inr (3, md0, md1, md2) \<Longrightarrow>
     get_input (m, con) = (Inl InputExhausted, (m, con))
     \<and> execute_opcode 3 ps (m, con) = (Inl InputExhausted, (m, con))
     \<and> (\<exists>m'. reads_only m m' \<and> run n (m, con) = Some (Inl InputExhausted, (m', con)))"
  using input_exhausted_run [of m md0 md1 md2 n con] execute_opcode_3_exhausted [of m ps con]
  by (simp add: get_input_def)

theorem input_exhausted_witness:
  "\<not> interactive (init [3, 0, 4, 0, 99] None True False)
   \<and> inputs (init [3, 0, 4, 0, 99] None True False) = []
   \<and> parse_opcode (peek (program (init [3, 0, 4, 0, 99] None True False))
        (pointer (init [3, 0, 4, 0, 99] None True False))) = Inr (3, 0, 0, 0)
   \<and> (\<exists>m'. run None (init [3, 0, 4, 0, 99] None True False, []) =
         Some (Inl InputExhausted, (m', [])))"
proof -
  have h: "\<not> interactive (init [3, 0, 4, 0, 99] None True False)"
    "inputs (init [3, 0, 4, 0, 99] None True False) = []"
    "parse_opcode (peek (program (init [3, 0, 4, 0, 99] None True False))
        (pointer (init [3, 0, 4, 0, 99] None True False))) = Inr (3, 0, 0, 0)"
    by (simp_all add: init_def peek_def dict_get_def parse_opcode_small)
  from input_exhausted [OF h, of "[]" "[]" None] h show ?thesis by blast
qed

section \<open>Copies and added input\<close>

lemma init_echo:
  "init [3, 0, 4, 0, 99] (Some [7]) False False =
     \<lparr>program = [(0, 3), (1, 0), (2, 4), (3, 0), (4, 99)], output = [], pointer = 0,
      interactive = False, inputs = [7], relative_base = 0, debug = False\<rparr>"
  by (simp add: init_def)

lemma echo_input:
  "run_body None 0
     (\<lparr>program = [(0, 3), (1, 0), (2, 4), (3, 0), (4, 99)], output = [], pointer = 0,
       interactive = False, inputs = [7], relative_base = 0, debug = False\<rparr>, []) =
   (Inr Next,
    (\<lparr>program = [(0, 7), (1, 0), (2, 4), (3, 0), (4, 99)], output = [], pointer = 2,
       interactive = False, inputs = [], relative_base = 0, debug = False\<rparr>, []))"
  by (simp add: eval_defs parse_opcode_small)

lemma echo_output:
  "run_body None 0
     (\<lparr>program = [(0, 7), (1, 0), (2, 4), (3, 0), (4, 99)], output = [], pointer = 2,
       interactive = False, inputs = [], relative_base = 0, debug = False\<rparr>, []) =
   (Inr Next,
    (\<lparr>program = [(0, 7), (1, 0), (2, 4), (3, 0), (4, 99)], output = [7], pointer = 4,
       interactive = False, inputs = [], relative_base = 0, debug = False\<rparr>, []))"
  by (simp add: eval_defs parse_opcode_small)

lemma echo_halt:
  "run_body None 0
     (\<lparr>program = [(0, 7), (1, 0), (2, 4), (3, 0), (4, 99)], output = [7], pointer = 4,
       interactive = False, inputs = [], relative_base = 0, debug = False\<rparr>, []) =
   (Inr (Return True),
    (\<lparr>program = [(0, 7), (1, 0), (2, 4), (3, 0), (4, 99)], output = [7], pointer = 4,
       interactive = False, inputs = [], relative_base = 0, debug = False\<rparr>, []))"
  by (simp add: eval_defs parse_opcode_small)

lemma echo_starved:
  "run_body None 0
     (\<lparr>program = [(0, 3), (1, 0), (2, 4), (3, 0), (4, 99)], output = [], pointer = 0,
       interactive = False, inputs = [], relative_base = 0, debug = False\<rparr>, []) =
   (Inl InputExhausted,
    (\<lparr>program = [(0, 3), (1, 0), (2, 4), (3, 0), (4, 99)], output = [], pointer = 0,
       interactive = False, inputs = [], relative_base = 0, debug = False\<rparr>, []))"
  by (simp add: eval_defs parse_opcode_small)

text \<open>
  Claim C1 does not hold of \<open>copy\<close>: the copy has the attributes of the machine, but
  the machine copied from loses its pending inputs. A machine with the program
  3, 0, 4, 0, 99 and the pending input 7 is copied; the copy then runs to the end with
  the output 7, and the machine copied from fails with \<open>InputExhausted\<close>.
\<close>

theorem copy_drains_inputs:
  "copy (init [3, 0, 4, 0, 99] (Some [7]) False False) =
     (\<lparr>program = [(0, 3), (1, 0), (2, 4), (3, 0), (4, 99)], output = [], pointer = 0,
       interactive = False, inputs = [7], relative_base = 0, debug = False\<rparr>,
      \<lparr>program = [(0, 3), (1, 0), (2, 4), (3, 0), (4, 99)], output = [], pointer = 0,
       interactive = False, inputs = [], relative_base = 0, debug = False\<rparr>)
   \<and> run None (fst (copy (init [3, 0, 4, 0, 99] (Some [7]) False False)), []) =
     Some (Inr True,
       (\<lparr>program = [(0, 7), (1, 0), (2, 4), (3, 0), (4, 99)], output = [7], pointer = 4,
         interactive = False, inputs = [], relative_base = 0, debug = False\<rparr>, []))
   \<and> run None (snd (copy (init [3, 0, 4, 0, 99] (Some [7]) False False)), []) =
     Some (Inl InputExhausted,
       (\<lparr>program = [(0, 3), (1, 0), (2, 4), (3, 0), (4, 99)], output = [], pointer = 0,
         interactive = False, inputs = [], relative_base = 0, debug = False\<rparr>, []))"
  by (simp add: copy_eq init_echo run_def run_loop_next [OF echo_input]
      run_loop_next [OF echo_output] run_loop_return [OF echo_halt]
      run_loop_raise [OF echo_starved])

lemma add_input_int: 
  "add_input (PInt v) m = (Inr (), m\<lparr>interactive := False, inputs := inputs m @ [v]\<rparr>)"
  by simp

lemma add_input_ints:
  "add_input (PList (map PInt vs)) m = (Inr (), m\<lparr>interactive := False, inputs := inputs m @ vs\<rparr>)"
  by (simp add: add_input_items_ints)

lemma run_interactive:
  "run n (m, con) = Some (r, (m', con')) \<Longrightarrow> interactive m' = interactive m"
  using run_loop_interactive [of n "length (output m)" "(m, con)" r "(m', con')"]
  by (simp add: run_def)

text \<open>
  Claim C8. For every machine and every integer or list of integers, \<open>add_input\<close>
  appends the value or the values, in order, after the values already pending, and
  sets the interactive flag to false (it does so for every argument, also one it
  rejects). From a machine whose flag is false no operation sets it again: not
  \<open>add_input\<close>, not a run, whatever its result, and not \<open>copy\<close>, in either machine.
\<close>

theorem add_input_appends:
  "add_input (PInt v) m = (Inr (), m\<lparr>interactive := False, inputs := inputs m @ [v]\<rparr>)
   \<and> add_input (PList (map PInt vs)) m =
       (Inr (), m\<lparr>interactive := False, inputs := inputs m @ vs\<rparr>)
   \<and> \<not> interactive (snd (add_input val m))
   \<and> (\<not> interactive m \<longrightarrow>
        (\<forall>n con r m' con'. run n (m, con) = Some (r, (m', con')) \<longrightarrow> \<not> interactive m')
        \<and> \<not> interactive (fst (copy m)) \<and> \<not> interactive (snd (copy m)))"
  using run_interactive [of _ m]
  by (simp add: add_input_items_ints add_input_sets_flag(1) copy_eq)

lemma halt_at_once:
  "run_body None 0
     (\<lparr>program = [(0, 99)], output = [], pointer = 0, interactive = False, inputs = [1],
       relative_base = 0, debug = False\<rparr>, []) =
   (Inr (Return True),
    (\<lparr>program = [(0, 99)], output = [], pointer = 0, interactive = False, inputs = [1],
       relative_base = 0, debug = False\<rparr>, []))"
  by (simp add: eval_defs parse_opcode_small)

lemma halt_at_once_run:
  "run None (init [99] (Some [1]) False False, []) =
     Some (Inr True, (init [99] (Some [1]) False False, []))"
  by (simp add: run_def init_def run_loop_return [OF halt_at_once [simplified]])

theorem add_input_appends_witness:
  "\<not> interactive (init [99] (Some [1]) False False)
   \<and> add_input (PList (map PInt [2, 3])) (init [99] (Some [1]) False False) =
       (Inr (), (init [99] (Some [1]) False False)\<lparr>interactive := False, inputs := [1, 2, 3]\<rparr>)
   \<and> run None (init [99] (Some [1]) False False, []) =
       Some (Inr True, (init [99] (Some [1]) False False, []))
   \<and> \<not> interactive (fst (copy (init [99] (Some [1]) False False)))
   \<and> \<not> interactive (snd (copy (init [99] (Some [1]) False False)))"
proof -
  have h: "\<not> interactive (init [99] (Some [1]) False False)"
    "inputs (init [99] (Some [1]) False False) = [1]" by (simp_all add: init_def)
  from add_input_appends [of 0 "init [99] (Some [1]) False False" "[2, 3]" POther] h
    halt_at_once_run
  show ?thesis by simp
qed

section \<open>Addresses that were never written\<close>

lemma upto_one: "[p + 1 .. p + 1] = [p + (1::int)]"
  by simp

lemma upto_three: "[p + 1 .. p + 3] = [p + 1, p + 2, p + (3::int)]"
proof -
  have "[p + 1 .. p + 3] = (p + 1) # [p + 2 .. p + 3]"
    using upto_rec1 [of "p + 1" "p + 3"] by (simp add: add.commute)
  also have "[p + 2 .. p + 3] = (p + 2) # [p + 3 .. p + 3]"
    using upto_rec1 [of "p + 2" "p + 3"] by (simp add: add.commute)
  finally show ?thesis by simp
qed


lemma peek_dict_set_fun: "peek (dict_set d k v) = (peek d)(k := v)"
  by (rule ext) (simp add: peek_dict_set)

lemma param_cases:
  "param ps i s = (r, s') \<longleftrightarrow>
     s' = s \<and> (i < length ps \<and> r = Inr (ps ! i) \<or> \<not> i < length ps \<and> r = Inl IndexError)"
  by (auto simp: param_def return_val_def raise_err_def)

lemmas action_cases = and_then_split on_machine_split param_cases return_val_split
  raise_err_split lift_err_split

lemma binary_store_frame:
  assumes "and_then (param ps 0) (\<lambda>p0. and_then (on_machine (get_value p0)) (\<lambda>a.
        and_then (param ps 1) (\<lambda>p1. and_then (on_machine (get_value p1)) (\<lambda>b.
        and_then (param ps 2) (\<lambda>p2. and_then (on_machine (store p2 (f a b))) (\<lambda>_.
        return_val True)))))) s = (r, s')"
  shows "peek (program (fst s')) = peek (program (fst s))
    \<or> (\<exists>v. 2 < length ps
          \<and> peek (program (fst s')) = (peek (program (fst s)))(get_write_value (ps ! 2) (fst s) := v))"
  using assms
  by (auto simp: action_cases store_def write_program_def get_write_value_def peek_dict_set_fun
      dest!: get_value_fields)


lemma input_store_frame:
  assumes "and_then get_input (\<lambda>v.
        and_then (param ps 0) (\<lambda>p0. and_then (on_machine (store p0 v)) (\<lambda>_.
        return_val True))) s = (r, s')"
  shows "peek (program (fst s')) = peek (program (fst s))
    \<or> (\<exists>v. 0 < length ps
          \<and> peek (program (fst s')) = (peek (program (fst s)))(get_write_value (ps ! 0) (fst s) := v))"
  using assms
  by (auto simp: action_cases store_def write_program_def get_write_value_def peek_dict_set_fun
      dest!: get_input_fields)

lemma output_frame:
  assumes "and_then (param ps 0) (\<lambda>p0. and_then (on_machine (get_value p0)) (\<lambda>a.
        and_then (on_machine (\<lambda>m. (Inr (), m\<lparr>output := output m @ [a]\<rparr>))) (\<lambda>_.
        return_val True))) s = (r, s')"
  shows "peek (program (fst s')) = peek (program (fst s))"
  using assms
  by (auto simp: action_cases dest!: get_value_fields)

lemma jump_frame:
  assumes "and_then (param ps 0) (\<lambda>p0. and_then (on_machine (get_value p0)) (\<lambda>a.
        if cond a then
          and_then (param ps 1) (\<lambda>p1. and_then (on_machine (get_value p1)) (\<lambda>target.
          and_then (on_machine (\<lambda>m. (Inr (), m\<lparr>pointer := target\<rparr>))) (\<lambda>_.
          return_val False)))
        else return_val True)) s = (r, s')"
  shows "peek (program (fst s')) = peek (program (fst s))"
  using assms
  by (auto simp: action_cases split: if_splits dest!: get_value_fields)

lemma base_frame:
  assumes "and_then (param ps 0) (\<lambda>p0. and_then (on_machine (get_value p0)) (\<lambda>a.
        and_then (on_machine (\<lambda>m. (Inr (), m\<lparr>relative_base := relative_base m + a\<rparr>))) (\<lambda>_.
        return_val True))) s = (r, s')"
  shows "peek (program (fst s')) = peek (program (fst s))"
  using assms
  by (auto simp: action_cases dest!: get_value_fields)

lemma execute_opcode_store:
  assumes e: "execute_opcode op ps s = (r, s')"
  shows "peek (program (fst s')) = peek (program (fst s))
    \<or> (\<exists>v. op \<in> {1, 2, 7, 8} \<and> 2 < length ps
          \<and> peek (program (fst s')) = (peek (program (fst s)))(get_write_value (ps ! 2) (fst s) := v))
    \<or> (\<exists>v. op = 3 \<and> 0 < length ps
          \<and> peek (program (fst s')) = (peek (program (fst s)))(get_write_value (ps ! 0) (fst s) := v))"
proof -
  consider "op = 1" | "op = 2" | "op = 3" | "op = 4" | "op = 5" | "op = 6" | "op = 7" | "op = 8"
    | "op = 9" | "op \<notin> {1, 2, 3, 4, 5, 6, 7, 8, 9}" by auto
  then show ?thesis
  proof cases
    case 1
    with e binary_store_frame [of ps "(+)" s r s'] show ?thesis
      by (simp add: execute_opcode_def)
  next
    case 2
    with e binary_store_frame [of ps "(*)" s r s'] show ?thesis
      by (simp add: execute_opcode_def)
  next
    case 3
    with e input_store_frame [of ps s r s'] show ?thesis
      by (simp add: execute_opcode_def)
  next
    case 4
    with e output_frame [of ps s r s'] show ?thesis
      by (simp add: execute_opcode_def)
  next
    case 5
    with e jump_frame [of ps "\<lambda>a. a \<noteq> 0" s r s'] show ?thesis
      by (simp add: execute_opcode_def)
  next
    case 6
    with e jump_frame [of ps "\<lambda>a. a = 0" s r s'] show ?thesis
      by (simp add: execute_opcode_def)
  next
    case 7
    with e binary_store_frame [of ps "\<lambda>a b. if a < b then 1 else 0" s r s'] show ?thesis
      by (simp add: execute_opcode_def)
  next
    case 8
    with e binary_store_frame [of ps "\<lambda>a b. if a = b then 1 else 0" s r s'] show ?thesis
      by (simp add: execute_opcode_def)
  next
    case 9
    with e base_frame [of ps s r s'] show ?thesis
      by (simp add: execute_opcode_def)
  next
    case 10
    with e show ?thesis
      by (simp add: execute_opcode_def return_val_def)
  qed
qed


lemma get_write_value_reads_only:
  "reads_only m m' \<Longrightarrow> get_write_value p m' = get_write_value p m"
  by (simp add: get_write_value_def reads_only_fields)

lemma run_body_frame:
  assumes b: "run_body n orig (m, c) = (r, s')" and a: "a \<notin> write_target m"
  shows "peek (program (fst s')) a = peek (program m) a"
  using b
proof (cases rule: run_body_cases)
  case (stop m')
  then show ?thesis by (simp add: reads_only_fields)
next
  case (exec op md0 md1 md2 k ps m2 x t)
  note ro = reads_only_fields [OF exec(6)]
  have st: "program (fst s') = program (fst t)"
    using exec(8) by (cases x) (auto split: if_splits)
  from execute_opcode_store [OF exec(7)]
  consider "peek (program (fst t)) = peek (program m2)"
    | v where "op \<in> {1, 2, 7, 8}" "2 < length ps"
        "peek (program (fst t)) = (peek (program m2))(get_write_value (ps ! 2) m2 := v)"
    | v where "op = 3" "0 < length ps"
        "peek (program (fst t)) = (peek (program m2))(get_write_value (ps ! 0) m2 := v)"
    by auto
  then show ?thesis
  proof cases
    case 1
    with st ro show ?thesis by simp
  next
    case 2
    from 2(1) exec(4) have k: "k = 3" by (auto simp: num_parameters_def)
    have "ps ! 2 = Instruction (peek (program m) (pointer m + 3)) md2"
      unfolding exec(5) k by (simp add: upto_three)
    with a exec(1) 2(1) have "a \<noteq> get_write_value (ps ! 2) m"
      by (auto simp: write_target_def)
    with 2(3) st ro get_write_value_reads_only [OF exec(6)] show ?thesis by simp
  next
    case 3
    from 3(1) exec(4) have k: "k = 1" by (auto simp: num_parameters_def)
    have "ps ! 0 = Instruction (peek (program m) (pointer m + 1)) md0"
      unfolding exec(5) k by simp
    with a exec(1) 3(1) have "a \<noteq> get_write_value (ps ! 0) m"
      by (auto simp: write_target_def)
    with 3(3) st ro get_write_value_reads_only [OF exec(6)] show ?thesis by simp
  qed
qed

lemma run_writes_frame:
  assumes "run_writes n orig s W" and "run_loop n orig s = Some (r, s')" and "a \<notin> W"
  shows "peek (program (fst s')) a = peek (program (fst s)) a"
  using assms
proof (induction arbitrary: r s' rule: run_writes.induct)
  case (last_pass n orig s r0 s0)
  have "run_loop n orig s = Some (case r0 of Inl e \<Rightarrow> Inl e | Inr st \<Rightarrow>
      (case st of Return b \<Rightarrow> Inr b | Next \<Rightarrow> Inr True), s0)"
  proof (cases r0)
    case (Inl e)
    with last_pass(1) show ?thesis by (simp add: run_loop_raise)
  next
    case (Inr st)
    with last_pass(1,2) show ?thesis by (cases st) (simp_all add: run_loop_return)
  qed
  with last_pass(3) have "s' = s0" by simp
  with run_body_frame [of n orig "fst s" "snd s" r0 s0 a] last_pass(1,4) show ?case by simp
next
  case (next_pass n orig s s0 W)
  from next_pass(1,4) have "run_loop n orig s0 = Some (r, s')" by (simp add: run_loop_next)
  from next_pass(3) [OF this] next_pass(5)
  have "peek (program (fst s')) a = peek (program (fst s0)) a" by simp
  with run_body_frame [of n orig "fst s" "snd s" "Inr Next" s0 a] next_pass(1,5)
  show ?case by simp
qed

lemma run_writes_exists:
  assumes "run_loop n orig s = Some y"
  shows "\<exists>W. run_writes n orig s W"
  using assms
proof (induction n orig s y rule: run_loop.raw_induct [rotated 1, consumes 1, case_names step])
  case (step loop n orig s y)
  obtain r t where b: "run_body n orig s = (r, t)" by (cases "run_body n orig s")
  show ?case
  proof (cases "r = Inr Next")
    case True
    with step(2) b have "loop n orig t = Some y" by simp
    from step(1) [OF this] obtain W where "run_writes n orig t W" ..
    from next_pass [OF b [unfolded True] this] show ?thesis ..
  next
    case False
    from last_pass [OF b False] show ?thesis ..
  qed
qed

lemma peek_empty: "peek [] a = 0"
  by (simp add: peek_eq)

lemma peek_image:
  "peek (fold (\<lambda>(index, i) d. dict_set d (int index) i) (enumerate n xs) d) a =
     (if int n \<le> a \<and> a < int n + int (length xs) then xs ! (nat a - n) else peek d a)"
proof (induction xs arbitrary: n d)
  case Nil
  show ?case by simp
next
  case (Cons x xs)
  have step: "peek (fold (\<lambda>(index, i) d. dict_set d (int index) i) (enumerate n (x # xs)) d) a =
     (if int (Suc n) \<le> a \<and> a < int (Suc n) + int (length xs) then xs ! (nat a - Suc n)
      else if a = int n then x else peek d a)"
    by (simp add: Cons.IH peek_dict_set)
  show ?case
  proof (cases "a = int n")
    case True
    then show ?thesis unfolding step by simp
  next
    case False
    have "int n \<le> a \<and> a < int n + int (length (x # xs))
      \<longleftrightarrow> int (Suc n) \<le> a \<and> a < int (Suc n) + int (length xs)"
      using False by auto
    moreover have "(x # xs) ! (nat a - n) = xs ! (nat a - Suc n)"
      if "int (Suc n) \<le> a"
    proof -
      from that have "nat a - n = Suc (nat a - Suc n)" by linarith
      then show ?thesis by simp
    qed
    ultimately show ?thesis unfolding step using False by auto
  qed
qed

lemma peek_init:
  "peek (program (init prog inps f dbg)) a =
     (if 0 \<le> a \<and> a < int (length prog) then prog ! nat a else 0)"
  using peek_image [of 0 prog "[]" a] by (simp add: init_def peek_empty)

lemma add_input_program:
  "program (snd (add_input v m)) = program m"
  "program (snd (add_input_items vs m)) = program m"
proof (induction v m and vs m rule: add_input_add_input_items.induct)
  case (5 i rest m)
  obtain r m' where a: "add_input i m = (r, m')" by (cases "add_input i m")
  from "5.IH"(1) a have f: "program m' = program m" by simp
  show ?case
  proof (cases r)
    case (Inl e)
    with a f show ?thesis by simp
  next
    case (Inr u)
    with a f "5.IH"(2) show ?thesis by auto
  qed
qed simp_all

lemma reachable_unwritten:
  assumes "reachable prog W m" and "a \<notin> W"
  shows "peek (program m) a = (if 0 \<le> a \<and> a < int (length prog) then prog ! nat a else 0)"
  using assms
proof (induction rule: reachable.induct)
  case (fresh inps force_uninteractive dbg)
  show ?case by (rule peek_init)
next
  case (written W m b v)
  then show ?case by (simp add: write_program_def peek_dict_set)
next
  case (read W m b)
  then show ?case by (simp add: read_only_simps)
next
  case (ran W m n con r m' con' W')
  from run_writes_frame [OF ran(3) ran(2) [unfolded run_def, simplified], of a] ran(4,5)
  show ?case by simp
next
  case (cloned W m)
  then show ?case by (simp add: copy_eq)
next
  case (copied_from W m)
  then show ?case by (simp add: copy_eq)
next
  case (input_added W m val)
  then show ?case by (simp add: add_input_program)
qed


lemma get_value_position:
  "fst (get_value (Instruction a 0) m) = Inr (fst (read_program a m))"
  by (simp add: get_value_def case_prod_beta)

lemma read_absent_key: "map_of (program m) a = None \<Longrightarrow> fst (read_program a m) = 0"
  by (simp add: fst_read_program peek_eq)

text \<open>
  Claim C9. Reading memory never fails: for every machine and every address, a read
  in position mode returns a value, and an address that is not a key of the dict reads
  as zero. After every sequence of operations on a machine built from a program image
  (stores to other addresses, reads, runs, copies, added input), an address that none
  of them stored to reads as the image has it, and as zero when it lies outside the
  image. Every run that returns has such a set of store addresses.
\<close>

theorem unwritten_reads_zero:
  "(fst (get_value (Instruction a 0) m0) = Inr (fst (read_program a m0))
    \<and> (map_of (program m0) a = None \<longrightarrow> fst (read_program a m0) = 0))
   \<and> (reachable prog W m \<and> a \<notin> W \<longrightarrow>
        fst (read_program a m) = (if 0 \<le> a \<and> a < int (length prog) then prog ! nat a else 0))
   \<and> (run n s = Some (r, s') \<longrightarrow> (\<exists>W'. run_writes n (length (output (fst s))) s W'))"
proof (intro conjI impI)
  show "fst (get_value (Instruction a 0) m0) = Inr (fst (read_program a m0))"
    by (rule get_value_position)
  show "fst (read_program a m0) = 0" if "map_of (program m0) a = None"
    using that by (rule read_absent_key)
  show "fst (read_program a m) = (if 0 \<le> a \<and> a < int (length prog) then prog ! nat a else 0)"
    if "reachable prog W m \<and> a \<notin> W"
    using that reachable_unwritten [of prog W m a] by (simp add: fst_read_program)
  show "\<exists>W'. run_writes n (length (output (fst s))) s W'" if "run n s = Some (r, s')"
    using that run_writes_exists [of n "length (output (fst s))" s] by (simp add: run_def)
qed

lemma parse_opcode_1101: "parse_opcode 1101 = Inr (1, 1, 1, 0)"
  using parse_opcode_value [of 1101] by simp

lemma add_store_pass:
  "run_body None 0
     (\<lparr>program = [(0, 1101), (1, 1), (2, 2), (3, 7), (4, 99)], output = [], pointer = 0,
       interactive = True, inputs = [], relative_base = 0, debug = False\<rparr>, []) =
   (Inr Next,
    (\<lparr>program = [(0, 1101), (1, 1), (2, 2), (3, 7), (4, 99), (7, 3)], output = [], pointer = 4,
       interactive = True, inputs = [], relative_base = 0, debug = False\<rparr>, []))"
  by (simp add: eval_defs parse_opcode_1101 upto_three [of 0, simplified])

lemma add_store_halt:
  "run_body None 0
     (\<lparr>program = [(0, 1101), (1, 1), (2, 2), (3, 7), (4, 99), (7, 3)], output = [], pointer = 4,
       interactive = True, inputs = [], relative_base = 0, debug = False\<rparr>, []) =
   (Inr (Return True),
    (\<lparr>program = [(0, 1101), (1, 1), (2, 2), (3, 7), (4, 99), (7, 3)], output = [], pointer = 4,
       interactive = True, inputs = [], relative_base = 0, debug = False\<rparr>, []))"
  by (simp add: eval_defs parse_opcode_small)

lemma init_add_store:
  "init [1101, 1, 2, 7, 99] None False False =
     \<lparr>program = [(0, 1101), (1, 1), (2, 2), (3, 7), (4, 99)], output = [], pointer = 0,
      interactive = True, inputs = [], relative_base = 0, debug = False\<rparr>"
  by (simp add: init_def)

lemma add_store_run:
  "run None (init [1101, 1, 2, 7, 99] None False False, []) =
     Some (Inr True,
       (\<lparr>program = [(0, 1101), (1, 1), (2, 2), (3, 7), (4, 99), (7, 3)], output = [], pointer = 4,
         interactive = True, inputs = [], relative_base = 0, debug = False\<rparr>, []))"
  by (simp add: run_def init_add_store run_loop_next [OF add_store_pass]
      run_loop_return [OF add_store_halt])

lemma add_store_writes:
  "run_writes None 0 (init [1101, 1, 2, 7, 99] None False False, []) {7}"
proof -
  have "run_writes None 0
     (\<lparr>program = [(0, 1101), (1, 1), (2, 2), (3, 7), (4, 99), (7, 3)], output = [], pointer = 4,
       interactive = True, inputs = [], relative_base = 0, debug = False\<rparr>, []) {}"
    using last_pass [OF add_store_halt]
    by (simp add: write_target_def peek_def dict_get_def parse_opcode_small)
  from next_pass [OF add_store_pass this] show ?thesis
    by (simp add: init_add_store write_target_def peek_def dict_get_def parse_opcode_1101
        get_write_value_def)
qed

lemma add_store_reachable:
  "reachable [1101, 1, 2, 7, 99] {7}
     \<lparr>program = [(0, 1101), (1, 1), (2, 2), (3, 7), (4, 99), (7, 3)], output = [], pointer = 4,
       interactive = True, inputs = [], relative_base = 0, debug = False\<rparr>"
  using ran [OF fresh add_store_run, of "{7}"] add_store_writes by (simp add: init_add_store)

theorem unwritten_reads_zero_witness:
  "reachable [1101, 1, 2, 7, 99] {7}
     \<lparr>program = [(0, 1101), (1, 1), (2, 2), (3, 7), (4, 99), (7, 3)], output = [], pointer = 4,
       interactive = True, inputs = [], relative_base = 0, debug = False\<rparr>
   \<and> (9::int) \<notin> {7}
   \<and> fst (read_program 9
       \<lparr>program = [(0, 1101), (1, 1), (2, 2), (3, 7), (4, 99), (7, 3)], output = [], pointer = 4,
         interactive = True, inputs = [], relative_base = 0, debug = False\<rparr>) = 0
   \<and> fst (read_program 7
       \<lparr>program = [(0, 1101), (1, 1), (2, 2), (3, 7), (4, 99), (7, 3)], output = [], pointer = 4,
         interactive = True, inputs = [], relative_base = 0, debug = False\<rparr>) = 3"
proof -
  have "fst (read_program 7
       \<lparr>program = [(0, 1101), (1, 1), (2, 2), (3, 7), (4, 99), (7, 3)], output = [], pointer = 4,
         interactive = True, inputs = [], relative_base = 0, debug = False\<rparr>) = 3"
    by (simp add: read_program_def dict_get_def)
  with add_store_reachable
    unwritten_reads_zero [of 9 "init [] None False False" "[1101, 1, 2, 7, 99]" "{7}"
      "\<lparr>program = [(0, 1101), (1, 1), (2, 2), (3, 7), (4, 99), (7, 3)], output = [], pointer = 4,
         interactive = True, inputs = [], relative_base = 0, debug = False\<rparr>"]
  show ?thesis by simp
qed

end
